theory Spec2Isabelle
  imports Main
begin

section \<open>The pipeline runner (recon.py)\<close>

text \<open>
  The runner is a linear script: two preflight checks, then 21 stages, each of which spawns
  one external process and looks at its exit status. The model keeps what the runner itself
  does (the files it opens, the processes it spawns, the directories it makes, what it logs)
  in a trace, and the files on disk in a map from path to content.

  The external tools are black boxes. What a spawned process does is a parameter of the
  model: a table from the argument vector to an outcome, which is either that the process
  could not be started (Python raises \<open>OSError\<close>, which \<open>run_command\<close> does not catch) or
  that it ran to completion with an exit status, the bytes of its two output streams, and
  whatever it did to the files on disk by itself. One run spawns 21 different argument
  vectors, so a table describes every sequence of outcomes the 21 processes can have.

  A \<open>string\<close> is a byte string: paths, arguments, file contents, the streams of a
  process. A \<open>str\<close> is a Python string, a list of code points. \<open>subprocess.run\<close> is called
  with \<open>text=True\<close>, so the streams it reads through a pipe are decoded with the codec of
  the locale, which is a parameter too; bytes that do not decode raise
  \<open>UnicodeDecodeError\<close> after the process has ended, whatever its exit status, and the
  decoded text has its line ends translated. Opening an output file for writing can fail
  (\<open>OSError\<close>). Neither exception is caught below \<open>main\<close>.

  An interrupt from the keyboard is outside the model. Log messages are kept without their
  non-ASCII glyphs, the brackets around a check mark, leading newlines and the text of a
  caught exception.
\<close>

type_synonym path = string
type_synonym files = "path \<rightharpoonup> string"
type_synonym str = "nat list"

text \<open>A literal of the program, as text.\<close>

definition lit :: "string \<Rightarrow> str" where
  "lit s = map of_char s"

text \<open>The translation of line ends that \<open>subprocess\<close> applies to decoded text:
  \<open>data.replace("\r\n", "\n").replace("\r", "\n")\<close>.\<close>

fun translate_newlines :: "str \<Rightarrow> str" where
  "translate_newlines [] = []"
| "translate_newlines [c] = [if c = 13 then 10 else c]"
| "translate_newlines (c # d # cs) =
     (if c = 13 \<and> d = 10 then 10 # translate_newlines cs
      else if c = 13 then 10 # translate_newlines (d # cs)
      else c # translate_newlines (d # cs))"

datatype level = INFO | WARNING | ERROR

text \<open>\<open>OpenW f\<close> is the call \<open>open(f, 'w')\<close>, whether it succeeds or not.\<close>

datatype event =
    Log level str
  | Log_step nat nat string
  | Mkdir path
  | OpenW path
  | Spawn "string list"

datatype exn = OSError | UnicodeDecodeError

record completed =
  returncode :: int
  stdout :: string
  stderr :: string
  effect :: "files \<Rightarrow> files"

datatype outcome = Completed completed | Not_started

record renv =
  which :: "string \<Rightarrow> bool"
  mkdir_ok :: "path \<Rightarrow> bool"
  open_ok :: "path \<Rightarrow> bool"
  proc :: "string list \<Rightarrow> outcome"
  decode :: "string \<Rightarrow> str option"

record rstate =
  files :: files
  trace :: "event list"
  current_step :: nat

definition required_tools :: "string list" where
  "required_tools =
     [''subfinder'', ''amass'', ''dnsx'', ''naabu'', ''httpx'',
      ''nuclei'', ''gau'', ''unfurl'', ''ffuf'', ''gowitness'', ''curl'']"

definition total_steps :: nat where
  "total_steps = 21"

definition output_dir :: path where
  "output_dir = ''output''"

definition screenshots_dir :: path where
  "screenshots_dir = ''screenshots''"

definition js_out_dir :: path where
  "js_out_dir = output_dir @ ''/js_out''"

definition logger_text :: "level \<Rightarrow> str \<Rightarrow> rstate \<Rightarrow> rstate" where
  "logger_text l m st = st\<lparr>trace := trace st @ [Log l m]\<rparr>"

definition logger :: "level \<Rightarrow> string \<Rightarrow> rstate \<Rightarrow> rstate" where
  "logger l m st = logger_text l (lit m) st"

definition log_step :: "string \<Rightarrow> rstate \<Rightarrow> rstate" where
  "log_step step_name st =
     (let n = current_step st + 1
      in st\<lparr>current_step := n, trace := trace st @ [Log_step n total_steps step_name]\<rparr>)"

text \<open>
  \<open>run_command\<close>. With an output file (\<open>if output_file:\<close>, so neither \<open>None\<close> nor the empty
  string), the file is opened for writing (created or truncated) before the process is
  spawned, the process writes its standard output into it, and only its standard error
  comes back through a pipe. Without one, both streams come back through pipes. A
  non-zero exit status under \<open>check\<close> raises \<open>CalledProcessError\<close>, which is caught and
  turned into \<open>(False, e.stderr)\<close>. Any other exception leaves the function.
\<close>

definition redirect_of :: "path option \<Rightarrow> path option" where
  "redirect_of output_file =
     (case output_file of None \<Rightarrow> None | Some f \<Rightarrow> if f = [] then None else Some f)"

text \<open>\<open>subprocess.run\<close> with \<open>text=True\<close>, once the process is spawned: the process ends, the
  piped streams are decoded (standard output first), then the exit status is looked at.\<close>

definition finish_run ::
  "renv \<Rightarrow> completed \<Rightarrow> bool \<Rightarrow> bool \<Rightarrow> rstate \<Rightarrow> (exn + bool \<times> str) \<times> rstate" where
  "finish_run env r redirected check st =
     (case (if redirected then Some (lit ''Command executed successfully'') else decode env (stdout r)) of
        None \<Rightarrow> (Inl UnicodeDecodeError, st)
      | Some out_text \<Rightarrow>
          (case decode env (stderr r) of
             None \<Rightarrow> (Inl UnicodeDecodeError, st)
           | Some err_text \<Rightarrow>
               if check \<and> returncode r \<noteq> 0 then (Inr (False, translate_newlines err_text), st)
               else if redirected then (Inr (True, out_text), st)
               else (Inr (True, translate_newlines out_text), st)))"

definition run_command ::
  "renv \<Rightarrow> string list \<Rightarrow> path option \<Rightarrow> bool \<Rightarrow> rstate \<Rightarrow> (exn + bool \<times> str) \<times> rstate" where
  "run_command env command output_file check st =
     (case redirect_of output_file of
        Some f \<Rightarrow>
          if \<not> open_ok env f then (Inl OSError, st\<lparr>trace := trace st @ [OpenW f]\<rparr>)
          else
            (let st1 = st\<lparr>files := (files st)(f \<mapsto> []), trace := trace st @ [OpenW f, Spawn command]\<rparr>
             in case proc env command of
                  Not_started \<Rightarrow> (Inl OSError, st1)
                | Completed r \<Rightarrow>
                    finish_run env r True check
                      (st1\<lparr>files := (effect r (files st1))(f \<mapsto> stdout r)\<rparr>))
      | None \<Rightarrow>
          (let st1 = st\<lparr>trace := trace st @ [Spawn command]\<rparr>
           in case proc env command of
                Not_started \<Rightarrow> (Inl OSError, st1)
              | Completed r \<Rightarrow>
                  finish_run env r False check (st1\<lparr>files := effect r (files st1)\<rparr>)))"

text \<open>\<open>run_shell_command\<close> is the same function with \<open>["bash", "-c", command]\<close> as the
  argument vector and \<open>check=True\<close> written out.\<close>

definition run_shell_command ::
  "renv \<Rightarrow> string \<Rightarrow> path option \<Rightarrow> rstate \<Rightarrow> (exn + bool \<times> str) \<times> rstate" where
  "run_shell_command env command output_file st =
     (case redirect_of output_file of
        Some f \<Rightarrow>
          if \<not> open_ok env f then (Inl OSError, st\<lparr>trace := trace st @ [OpenW f]\<rparr>)
          else
            (let st1 = st\<lparr>files := (files st)(f \<mapsto> []),
                            trace := trace st @ [OpenW f, Spawn [''bash'', ''-c'', command]]\<rparr>
             in case proc env [''bash'', ''-c'', command] of
                  Not_started \<Rightarrow> (Inl OSError, st1)
                | Completed r \<Rightarrow>
                    finish_run env r True True
                      (st1\<lparr>files := (effect r (files st1))(f \<mapsto> stdout r)\<rparr>))
      | None \<Rightarrow>
          (let st1 = st\<lparr>trace := trace st @ [Spawn [''bash'', ''-c'', command]]\<rparr>
           in case proc env [''bash'', ''-c'', command] of
                Not_started \<Rightarrow> (Inl OSError, st1)
              | Completed r \<Rightarrow>
                  finish_run env r False True (st1\<lparr>files := effect r (files st1)\<rparr>)))"

fun check_tools_loop :: "renv \<Rightarrow> string list \<Rightarrow> string list \<Rightarrow> rstate \<Rightarrow> string list \<times> rstate" where
  "check_tools_loop env [] missing_tools st = (missing_tools, st)"
| "check_tools_loop env (tool # tools) missing_tools st =
     (if \<not> which env tool then check_tools_loop env tools (missing_tools @ [tool]) st
      else check_tools_loop env tools missing_tools (logger INFO (tool @ '' found'') st))"

fun join :: "string \<Rightarrow> string list \<Rightarrow> string" where
  "join sep [] = []"
| "join sep [x] = x"
| "join sep (x # y # ys) = x @ sep @ join sep (y # ys)"

definition check_tools :: "renv \<Rightarrow> rstate \<Rightarrow> bool \<times> rstate" where
  "check_tools env st =
     (case check_tools_loop env required_tools [] (logger INFO ''[+] Checking required tools...'' st) of
        (missing_tools, st1) \<Rightarrow>
          if missing_tools \<noteq> [] then
            (False,
             logger ERROR ''Please run install.py first to install all required tools.''
               (logger ERROR (''Missing required tools: '' @ join '', '' missing_tools) st1))
          else (True, logger INFO ''All required tools are available'' st1))"

fun create_directories_loop :: "renv \<Rightarrow> path list \<Rightarrow> rstate \<Rightarrow> bool \<times> rstate" where
  "create_directories_loop env [] st = (True, st)"
| "create_directories_loop env (directory # directories) st =
     (let st1 = st\<lparr>trace := trace st @ [Mkdir directory]\<rparr>
      in if mkdir_ok env directory
         then create_directories_loop env directories
                (logger INFO (''Created directory: '' @ directory @ ''/'') st1)
         else (False, logger ERROR (''Failed to create directory '' @ directory) st1))"

definition create_directories :: "renv \<Rightarrow> rstate \<Rightarrow> bool \<times> rstate" where
  "create_directories env st =
     create_directories_loop env [output_dir, screenshots_dir, js_out_dir]
       (logger INFO ''[+] Creating directories...'' st)"

definition check_file_created :: "path \<Rightarrow> rstate \<Rightarrow> bool \<times> rstate" where
  "check_file_created file_path st =
     (case files st file_path of
        Some content \<Rightarrow>
          if length content > 0 then (True, logger INFO (file_path @ '' created successfully'') st)
          else (False, logger WARNING (''[!] '' @ file_path @ '' is empty or not created'') st)
      | None \<Rightarrow> (False, logger WARNING (''[!] '' @ file_path @ '' is empty or not created'') st))"

text \<open>
  The 21 blocks of \<open>run_recon\<close> have one shape: \<open>log_step\<close>, one call of \<open>run_command\<close>
  or \<open>run_shell_command\<close>, the error return when it reports failure, and then either
  \<open>check_file_created\<close> on a path or (step 12 only) a plain log line. A stage record holds
  what differs between the blocks.
\<close>

datatype invocation = Argv "string list" | Shell string

datatype post = Check_file path | Log_info string

record stage =
  step_name :: string
  invocation :: invocation
  output_file :: "path option"
  fail_label :: string
  post :: post

definition mk_stage :: "string \<Rightarrow> invocation \<Rightarrow> path option \<Rightarrow> string \<Rightarrow> post \<Rightarrow> stage" where
  "mk_stage n i f l p = \<lparr>step_name = n, invocation = i, output_file = f, fail_label = l, post = p\<rparr>"

definition out :: "string \<Rightarrow> path" where
  "out name = output_dir @ ''/'' @ name"

definition stages :: "string \<Rightarrow> stage list" where
  "stages target =
    [mk_stage ''subfinder''
       (Argv [''subfinder'', ''-d'', target, ''-all'', ''-silent''])
       (Some (out ''01_subfinder.txt'')) ''Subfinder failed''
       (Check_file (out ''01_subfinder.txt'')),
     mk_stage ''amass passive''
       (Argv [''amass'', ''enum'', ''-passive'', ''-d'', target])
       (Some (out ''02_amass_passive.txt'')) ''Amass passive failed''
       (Check_file (out ''02_amass_passive.txt'')),
     mk_stage ''merge and de-duplicate subdomains''
       (Shell (''cat '' @ out ''01_subfinder.txt'' @ '' '' @ out ''02_amass_passive.txt'' @ '' | sort -u''))
       (Some (out ''03_subs_uniq.txt'')) ''Merge failed''
       (Check_file (out ''03_subs_uniq.txt'')),
     mk_stage ''DNS resolution''
       (Argv [''dnsx'', ''-l'', out ''03_subs_uniq.txt'', ''-a'', ''-aaaa'', ''-cname'', ''-ns'', ''-resp''])
       (Some (out ''04_dnsx_resolved.txt'')) ''DNSx failed''
       (Check_file (out ''04_dnsx_resolved.txt'')),
     mk_stage ''extract resolved hosts''
       (Shell (''awk '{print $1}' '' @ out ''04_dnsx_resolved.txt'' @ '' | sort -u''))
       (Some (out ''05_hosts_resolved.txt'')) ''Host extraction failed''
       (Check_file (out ''05_hosts_resolved.txt'')),
     mk_stage ''naabu top 1000 ports scan''
       (Argv [''naabu'', ''-list'', out ''05_hosts_resolved.txt'', ''-p'', ''top-1000'', ''-rate'', ''2000''])
       (Some (out ''06_naabu_top1k.txt'')) ''Naabu top 1000 failed''
       (Check_file (out ''06_naabu_top1k.txt'')),
     mk_stage ''naabu full TCP sweep''
       (Argv [''naabu'', ''-list'', out ''05_hosts_resolved.txt'', ''-p'', ''-'', ''-rate'', ''500''])
       (Some (out ''07_naabu_full.txt'')) ''Naabu full sweep failed''
       (Check_file (out ''07_naabu_full.txt'')),
     mk_stage ''merge open ports''
       (Shell (''cat '' @ out ''06_naabu_top1k.txt'' @ '' '' @ out ''07_naabu_full.txt'' @ '' | sort -u''))
       (Some (out ''08_open_ports.txt'')) ''Port merge failed''
       (Check_file (out ''08_open_ports.txt'')),
     mk_stage ''httpx from subdomains''
       (Argv [''httpx'', ''-l'', out ''03_subs_uniq.txt'', ''-status-code'', ''-title'', ''-tech-detect'',
              ''-follow-redirects''])
       (Some (out ''09_httpx_subs.txt'')) ''HTTPx subdomains failed''
       (Check_file (out ''09_httpx_subs.txt'')),
     mk_stage ''httpx from open ports''
       (Argv [''httpx'', ''-l'', out ''08_open_ports.txt'', ''-status-code'', ''-title'', ''-tech-detect'',
              ''-follow-redirects''])
       (Some (out ''10_httpx_ports.txt'')) ''HTTPx ports failed''
       (Check_file (out ''10_httpx_ports.txt'')),
     mk_stage ''merge live URLs''
       (Shell (''cat '' @ out ''09_httpx_subs.txt'' @ '' '' @ out ''10_httpx_ports.txt''
               @ '' | awk '{print $1}' | sort -u''))
       (Some (out ''11_live_urls.txt'')) ''URL merge failed''
       (Check_file (out ''11_live_urls.txt'')),
     mk_stage ''gowitness screenshots''
       (Argv [''gowitness'', ''file'', ''-f'', out ''11_live_urls.txt'', ''-t'', ''5'', ''--timeout'', ''10'',
              ''--log-level'', ''warn'', ''--destination'', ''screenshots'',
              ''--json'', ''screenshots/gowitness.json''])
       None ''Gowitness failed''
       (Log_info ''Screenshots captured''),
     mk_stage ''CNAME takeover candidates''
       (Shell (''awk '/CNAME/ {print $1,$5}' '' @ out ''04_dnsx_resolved.txt''))
       (Some (out ''12_cname_candidates.txt'')) ''CNAME extraction failed''
       (Check_file (out ''12_cname_candidates.txt'')),
     mk_stage ''nuclei high-severity web scan''
       (Argv [''nuclei'', ''-l'', out ''11_live_urls.txt'', ''-severity'', ''critical,high,medium'',
              ''-rl'', ''50'', ''-c'', ''50''])
       (Some (out ''13_nuclei_web.txt'')) ''Nuclei web scan failed''
       (Check_file (out ''13_nuclei_web.txt'')),
     mk_stage ''nuclei takeover scan''
       (Argv [''nuclei'', ''-t'', ''http/takeovers/'', ''-l'', out ''03_subs_uniq.txt'',
              ''-rl'', ''30'', ''-c'', ''30''])
       (Some (out ''14_nuclei_takeover.txt'')) ''Nuclei takeover scan failed''
       (Check_file (out ''14_nuclei_takeover.txt'')),
     mk_stage ''GAU historical endpoints''
       (Argv [''gau'', ''--providers'', ''wayback,otx,urlscan'', target])
       (Some (out ''15_gau.txt'')) ''GAU failed''
       (Check_file (out ''15_gau.txt'')),
     mk_stage ''extract parameters''
       (Shell (''cat '' @ out ''15_gau.txt'' @ '' | unfurl --unique keys''))
       (Some (out ''16_params.txt'')) ''Parameter extraction failed''
       (Check_file (out ''16_params.txt'')),
     mk_stage ''ffuf directory fuzzing''
       (Argv [''ffuf'', ''-u'', ''https://'' @ target @ ''/FUZZ'',
              ''-w'', ''/usr/share/wordlists/dirb/common.txt'',
              ''-mc'', ''200,204,301,302,307,401,403'', ''-o'', out ''17_ffuf_dirs.txt'', ''-of'', ''txt''])
       None ''FFUF directory fuzzing failed''
       (Check_file (out ''17_ffuf_dirs.txt'')),
     mk_stage ''ffuf parameter fuzzing''
       (Argv [''ffuf'', ''-u'', ''https://'' @ target @ ''/search?FUZZ=test'',
              ''-w'', out ''16_params.txt'', ''-mc'', ''all'', ''-o'', out ''18_ffuf_params.txt'', ''-of'', ''txt''])
       None ''FFUF parameter fuzzing failed''
       (Check_file (out ''18_ffuf_params.txt'')),
     mk_stage ''httpx JS scraping''
       (Argv [''httpx'', ''-l'', out ''11_live_urls.txt'', ''-path'', ''discovery'',
              ''-store-response-dir'', out ''js_out'',
              ''-match-regex'', CHR 0x5C # ''.js($|'' @ CHR 0x5C # ''?)''])
       (Some (out ''19_js_endpoints.txt'')) ''HTTPx JS scraping failed''
       (Check_file (out ''19_js_endpoints.txt'')),
     mk_stage ''robots.txt check''
       (Argv [''curl'', ''-s'', ''https://'' @ target @ ''/robots.txt''])
       (Some (out ''20_robots.txt'')) ''Robots.txt check failed''
       (Check_file (out ''20_robots.txt''))]"

definition invoke :: "renv \<Rightarrow> stage \<Rightarrow> rstate \<Rightarrow> (exn + bool \<times> str) \<times> rstate" where
  "invoke env s st =
     (case invocation s of
        Argv command \<Rightarrow> run_command env command (output_file s) True st
      | Shell command \<Rightarrow> run_shell_command env command (output_file s) st)"

definition post_stage :: "post \<Rightarrow> rstate \<Rightarrow> rstate" where
  "post_stage p st =
     (case p of
        Check_file file_path \<Rightarrow> snd (check_file_created file_path st)
      | Log_info m \<Rightarrow> logger INFO m st)"

text \<open>One block of \<open>run_recon\<close>. \<open>Inr False\<close> is the block's \<open>return False\<close>; \<open>Inr True\<close>
  is falling through to the next block.\<close>

definition run_stage :: "renv \<Rightarrow> stage \<Rightarrow> rstate \<Rightarrow> (exn + bool) \<times> rstate" where
  "run_stage env s st =
     (case invoke env s (log_step (step_name s) st) of
        (Inl e, st1) \<Rightarrow> (Inl e, st1)
      | (Inr (success, output), st1) \<Rightarrow>
          if \<not> success then (Inr False, logger_text ERROR (lit (fail_label s @ '': '') @ output) st1)
          else (Inr True, post_stage (post s) st1))"

fun run_stages :: "renv \<Rightarrow> stage list \<Rightarrow> rstate \<Rightarrow> (exn + bool) \<times> rstate" where
  "run_stages env [] st = (Inr True, st)"
| "run_stages env (s # ss) st =
     (case run_stage env s st of
        (Inr True, st1) \<Rightarrow> run_stages env ss st1
      | (r, st1) \<Rightarrow> (r, st1))"

definition preflight :: "renv \<Rightarrow> string \<Rightarrow> rstate \<Rightarrow> bool \<times> rstate" where
  "preflight env target st =
     (case check_tools env (logger INFO (''Starting reconnaissance on: '' @ target) st) of
        (False, st1) \<Rightarrow> (False, st1)
      | (True, st1) \<Rightarrow>
          (case create_directories env st1 of
             (False, st2) \<Rightarrow> (False, st2)
           | (True, st2) \<Rightarrow>
               (True, logger INFO (''Screenshots directory: '' @ screenshots_dir)
                        (logger INFO (''Output directory: '' @ output_dir) st2))))"

definition run_recon :: "renv \<Rightarrow> string \<Rightarrow> rstate \<Rightarrow> (exn + bool) \<times> rstate" where
  "run_recon env target st =
     (case preflight env target st of
        (False, st1) \<Rightarrow> (Inr False, st1)
      | (True, st1) \<Rightarrow>
          (case run_stages env (stages target) st1 of
             (Inr True, st2) \<Rightarrow>
               (Inr True, logger INFO ''Recon complete! Results in ./output and ./screenshots'' st2)
           | (r, st2) \<Rightarrow> (r, st2)))"

text \<open>\<open>main\<close> after argument parsing: the exit status and the final state. The pipeline
  object is created with \<open>current_step = 0\<close>.\<close>

definition main :: "renv \<Rightarrow> string \<Rightarrow> rstate \<Rightarrow> int \<times> rstate" where
  "main env target st =
     (if target = [] \<or> CHR ''.'' \<notin> set target then
        (1, logger ERROR ''Invalid target format. Please provide a valid domain (e.g., example.com)'' st)
      else
        (case run_recon env target (st\<lparr>current_step := 0\<rparr>) of
           (Inr success, st1) \<Rightarrow> (if success then 0 else 1, st1)
         | (Inl e, st1) \<Rightarrow> (1, logger ERROR ''Unexpected error'' st1)))"

subsection \<open>Reading a trace\<close>

fun spawned :: "event list \<Rightarrow> string list list" where
  "spawned [] = []"
| "spawned (Spawn c # es) = c # spawned es"
| "spawned (e # es) = spawned es"

fun opened :: "event list \<Rightarrow> path list" where
  "opened [] = []"
| "opened (OpenW f # es) = f # opened es"
| "opened (e # es) = opened es"

fun made_dirs :: "event list \<Rightarrow> path list" where
  "made_dirs [] = []"
| "made_dirs (Mkdir d # es) = d # made_dirs es"
| "made_dirs (e # es) = made_dirs es"

definition argv_of :: "stage \<Rightarrow> string list" where
  "argv_of s = (case invocation s of Argv c \<Rightarrow> c | Shell c \<Rightarrow> [''bash'', ''-c'', c])"

text \<open>The artifact a stage is expected to leave: the path given to \<open>check_file_created\<close>.\<close>

definition artifact :: "stage \<Rightarrow> path option" where
  "artifact s = (case post s of Check_file p \<Rightarrow> Some p | Log_info m \<Rightarrow> None)"

definition exits_zero :: "renv \<Rightarrow> stage \<Rightarrow> bool" where
  "exits_zero env s = (case proc env (argv_of s) of Completed r \<Rightarrow> returncode r = 0 | Not_started \<Rightarrow> False)"

definition tools_present :: "renv \<Rightarrow> bool" where
  "tools_present env = list_all (which env) required_tools"

definition dirs_creatable :: "renv \<Rightarrow> bool" where
  "dirs_creatable env = list_all (mkdir_ok env) [output_dir, screenshots_dir, js_out_dir]"

subsection \<open>Observations and example environments\<close>

definition state_before :: "renv \<Rightarrow> string \<Rightarrow> rstate \<Rightarrow> nat \<Rightarrow> rstate" where
  "state_before env target st k =
     snd (run_stages env (take (k - 1) (stages target))
            (snd (preflight env target (st\<lparr>current_step := 0\<rparr>))))"

definition leaves_alone :: "completed \<Rightarrow> path \<Rightarrow> bool" where
  "leaves_alone r p = (\<forall>fs. effect r fs p = fs p)"

fun warnings :: "event list \<Rightarrow> str list" where
  "warnings [] = []"
| "warnings (Log WARNING m # es) = m # warnings es"
| "warnings (e # es) = warnings es"

fun errors :: "event list \<Rightarrow> str list" where
  "errors [] = []"
| "errors (Log ERROR m # es) = m # errors es"
| "errors (e # es) = errors es"

definition has_content :: "files \<Rightarrow> path \<Rightarrow> bool" where
  "has_content fs p = (case fs p of Some content \<Rightarrow> content \<noteq> [] | None \<Rightarrow> False)"

definition tool_leaves_alone :: "renv \<Rightarrow> stage \<Rightarrow> path \<Rightarrow> bool" where
  "tool_leaves_alone env s p =
     (case proc env (argv_of s) of Completed r \<Rightarrow> leaves_alone r p | Not_started \<Rightarrow> True)"


text \<open>What can go wrong in a stage besides the exit status: opening its output file, and
  decoding the streams that come back through a pipe.\<close>

definition opens :: "renv \<Rightarrow> stage \<Rightarrow> bool" where
  "opens env s = (case redirect_of (output_file s) of Some f \<Rightarrow> open_ok env f | None \<Rightarrow> True)"

definition decodes :: "renv \<Rightarrow> stage \<Rightarrow> bool" where
  "decodes env s =
     (case proc env (argv_of s) of
        Completed r \<Rightarrow>
          decode env (stderr r) \<noteq> None
          \<and> (case redirect_of (output_file s) of
                Some f \<Rightarrow> True
              | None \<Rightarrow> decode env (stdout r) \<noteq> None)
      | Not_started \<Rightarrow> True)"

text \<open>A stage passes when its block of \<open>run_recon\<close> falls through to the next one.\<close>

definition passes :: "renv \<Rightarrow> stage \<Rightarrow> bool" where
  "passes env s = (opens env s \<and> exits_zero env s \<and> decodes env s)"

text \<open>The codec \<open>ascii\<close>: bytes below 128 are their own code points, any other byte does
  not decode. The examples use it on ASCII bytes and on the byte \<open>0xFF\<close>, which UTF-8 does
  not decode either.\<close>

definition ascii_codec :: "string \<Rightarrow> str option" where
  "ascii_codec bs = (if list_all (\<lambda>b. (of_char b :: nat) < 128) bs then Some (lit bs) else None)"

definition st0 :: rstate where
  "st0 = \<lparr>files = Map.empty, trace = [], current_step = 0\<rparr>"

definition ok_quiet :: completed where
  "ok_quiet = \<lparr>returncode = 0, stdout = [], stderr = [], effect = (\<lambda>fs. fs)\<rparr>"

definition ok_line :: completed where
  "ok_line = \<lparr>returncode = 0, stdout = ''x'' @ [CHR 0x0A], stderr = [], effect = (\<lambda>fs. fs)\<rparr>"

definition env_quiet :: renv where
  "env_quiet =
     \<lparr>which = (\<lambda>t. True), mkdir_ok = (\<lambda>d. True), open_ok = (\<lambda>f. True),
      proc = (\<lambda>c. Completed ok_quiet), decode = ascii_codec\<rparr>"

definition env_mock :: renv where
  "env_mock =
     \<lparr>which = (\<lambda>t. True), mkdir_ok = (\<lambda>d. True), open_ok = (\<lambda>f. True),
      proc = (\<lambda>c. Completed ok_line), decode = ascii_codec\<rparr>"

text \<open>The events of a stage whose process exits with status 0.\<close>

definition report :: "post \<Rightarrow> files \<Rightarrow> event" where
  "report q fs =
     (case q of
        Check_file p \<Rightarrow>
          if has_content fs p then Log INFO (lit (p @ '' created successfully''))
          else Log WARNING (lit (''[!] '' @ p @ '' is empty or not created''))
      | Log_info m \<Rightarrow> Log INFO (lit m))"

definition st11 :: rstate where
  "st11 = \<lparr>files = Map.empty, trace = [], current_step = 11\<rparr>"

definition failed1 :: completed where
  "failed1 = \<lparr>returncode = 1, stdout = [], stderr = ''boom'', effect = (\<lambda>fs. fs)\<rparr>"

definition env_amass_fails :: renv where
  "env_amass_fails =
     \<lparr>which = (\<lambda>t. True), mkdir_ok = (\<lambda>d. True), open_ok = (\<lambda>f. True),
      proc = (\<lambda>c. if take 1 c = [''amass''] then Completed failed1 else Completed ok_line),
      decode = ascii_codec\<rparr>"

text \<open>Every process exits with status 0 and writes one byte that is not ASCII on its
  standard error.\<close>

definition ok_garbled :: completed where
  "ok_garbled = \<lparr>returncode = 0, stdout = ''x'' @ [CHR 0x0A], stderr = [CHR 0xFF], effect = (\<lambda>fs. fs)\<rparr>"

definition env_garbled :: renv where
  "env_garbled =
     \<lparr>which = (\<lambda>t. True), mkdir_ok = (\<lambda>d. True), open_ok = (\<lambda>f. True),
      proc = (\<lambda>c. Completed ok_garbled), decode = ascii_codec\<rparr>"


section \<open>The installer (install.py)\<close>

subsection \<open>The string operations of \<open>get_tool_version\<close> and \<open>check_kali_linux\<close>\<close>

text \<open>
  Python's \<open>str.strip\<close>, \<open>str.split('\n')\<close>, \<open>str.lower\<close>, the substring test \<open>in\<close> and
  \<open>re.search\<close> with the one pattern the installer uses, on strings of code points. Three
  of them depend on the Unicode database of the interpreter: which code points are white
  space (\<open>str.strip\<close>), which are decimal digits (\<open>\d\<close> in a pattern over \<open>str\<close>), and what
  the lower case of a string is. On ASCII they are fixed and written out here. Beyond ASCII
  they are parameters: \<open>isspace\<close> and \<open>isdecimal\<close> for a code point from 128 on, \<open>str_lower\<close>
  for a string that has such a code point.
\<close>

record unicode =
  isspace :: "nat \<Rightarrow> bool"
  isdecimal :: "nat \<Rightarrow> bool"
  str_lower :: "str \<Rightarrow> str"

definition is_space :: "unicode \<Rightarrow> nat \<Rightarrow> bool" where
  "is_space u c = (if c < 128 then c \<in> {9, 10, 11, 12, 13, 28, 29, 30, 31, 32} else isspace u c)"

definition is_digit :: "unicode \<Rightarrow> nat \<Rightarrow> bool" where
  "is_digit u c = (if c < 128 then 48 \<le> c \<and> c \<le> 57 else isdecimal u c)"

definition strip :: "unicode \<Rightarrow> str \<Rightarrow> str" where
  "strip u s = rev (dropWhile (is_space u) (rev (dropWhile (is_space u) s)))"

fun split_lines :: "str \<Rightarrow> str list" where
  "split_lines [] = [[]]"
| "split_lines (c # cs) =
     (if c = 10 then [] # split_lines cs
      else (case split_lines cs of l # ls \<Rightarrow> (c # l) # ls | [] \<Rightarrow> [[c]]))"

definition lower_ascii :: "nat \<Rightarrow> nat" where
  "lower_ascii c = (if 65 \<le> c \<and> c \<le> 90 then c + 32 else c)"

definition lower :: "unicode \<Rightarrow> str \<Rightarrow> str" where
  "lower u s = (if list_all (\<lambda>c. c < 128) s then map lower_ascii s else str_lower u s)"

text \<open>\<open>contains sub s\<close> is Python's \<open>sub in s\<close>.\<close>

fun contains :: "'a list \<Rightarrow> 'a list \<Rightarrow> bool" where
  "contains sub [] = (sub = [])"
| "contains sub (c # cs) = (take (length sub) (c # cs) = sub \<or> contains sub cs)"

text \<open>
  The pattern \<open>v?\d+\.\d+\.?\d*\<close> at the start of a string. Each quantifier is greedy, and
  no shorter choice can rescue a failed attempt (neither \<open>v\<close> nor the dot is a digit):
  after an optional \<open>v\<close>, the longest run of digits (at least one), a dot, the longest run
  of digits (at least one), then a dot if there is one, then the longest run of digits.
\<close>

definition match_tail :: "unicode \<Rightarrow> str \<Rightarrow> str option" where
  "match_tail u s =
     (let d1 = takeWhile (is_digit u) s; r1 = dropWhile (is_digit u) s
      in if d1 = [] then None
         else (case r1 of
                 [] \<Rightarrow> None
               | c # r2 \<Rightarrow>
                   if c \<noteq> 46 then None
                   else (let d2 = takeWhile (is_digit u) r2; r3 = dropWhile (is_digit u) r2
                         in if d2 = [] then None
                            else (case r3 of
                                    [] \<Rightarrow> Some (d1 @ [46] @ d2)
                                  | c3 # r4 \<Rightarrow>
                                      if c3 = 46
                                      then Some (d1 @ [46] @ d2 @ [46] @ takeWhile (is_digit u) r4)
                                      else Some (d1 @ [46] @ d2)))))"

definition match_here :: "unicode \<Rightarrow> str \<Rightarrow> str option" where
  "match_here u s =
     (case s of
        [] \<Rightarrow> None
      | c # cs \<Rightarrow>
          if c = 118 then (case match_tail u cs of Some m \<Rightarrow> Some (c # m) | None \<Rightarrow> None)
          else match_tail u s)"

text \<open>\<open>re.search\<close>: the match at the leftmost position that has one.\<close>

fun re_search :: "unicode \<Rightarrow> str \<Rightarrow> str option" where
  "re_search u [] = None"
| "re_search u (c # cs) =
     (case match_here u (c # cs) of Some m \<Rightarrow> Some m | None \<Rightarrow> re_search u cs)"

text \<open>The test \<open>'version' in line.lower() or 'v' in line\<close>.\<close>

definition mentions :: "unicode \<Rightarrow> str \<Rightarrow> bool" where
  "mentions u line = (contains (lit ''version'') (lower u line) \<or> contains (lit ''v'') line)"

fun scan_lines :: "unicode \<Rightarrow> str list \<Rightarrow> str option" where
  "scan_lines u [] = None"
| "scan_lines u (line # lines) =
     (if mentions u line then
        (case re_search u line of Some m \<Rightarrow> Some m | None \<Rightarrow> scan_lines u lines)
      else scan_lines u lines)"

text \<open>What \<open>get_tool_version\<close> returns from an accepted output: the body of its \<open>if\<close>.\<close>

definition version_of :: "unicode \<Rightarrow> str \<Rightarrow> str" where
  "version_of u output =
     (case scan_lines u (split_lines (strip u output)) of
        Some m \<Rightarrow> m
      | None \<Rightarrow>
          if length (strip u output) > 50 then take 50 (strip u output) @ lit ''...''
          else strip u output)"

text \<open>
  Tables for the examples. White space and decimal digits are those of Unicode 14.0.0, the
  database of CPython 3.11. The lower case is that of strings made of ASCII, the Kelvin
  sign (U+212A, whose lower case is \<open>k\<close>) and the dotted capital I (U+0130, whose lower
  case is \<open>i\<close> followed by U+0307); the examples use no other code point.
\<close>

definition decimal_ranges :: "(nat \<times> nat) list" where
  "decimal_ranges =
     [(1632, 1641), (1776, 1785), (1984, 1993), (2406, 2415), (2534, 2543), (2662, 2671),
      (2790, 2799), (2918, 2927), (3046, 3055), (3174, 3183), (3302, 3311), (3430, 3439),
      (3558, 3567), (3664, 3673), (3792, 3801), (3872, 3881), (4160, 4169), (4240, 4249),
      (6112, 6121), (6160, 6169), (6470, 6479), (6608, 6617), (6784, 6793), (6800, 6809),
      (6992, 7001), (7088, 7097), (7232, 7241), (7248, 7257), (42528, 42537), (43216, 43225),
      (43264, 43273), (43472, 43481), (43504, 43513), (43600, 43609), (44016, 44025), (65296, 65305),
      (66720, 66729), (68912, 68921), (69734, 69743), (69872, 69881), (69942, 69951), (70096, 70105),
      (70384, 70393), (70736, 70745), (70864, 70873), (71248, 71257), (71360, 71369), (71472, 71481),
      (71904, 71913), (72016, 72025), (72784, 72793), (73040, 73049), (73120, 73129), (92768, 92777),
      (92864, 92873), (93008, 93017), (120782, 120831), (123200, 123209), (123632, 123641), (125264, 125273),
      (130032, 130041)]"

definition lower_point :: "nat \<Rightarrow> str" where
  "lower_point c =
     (if c = 8490 then [107] else if c = 304 then [105, 775] else [lower_ascii c])"

definition sample_unicode :: unicode where
  "sample_unicode =
     \<lparr>isspace = (\<lambda>c. c \<in> {133, 160, 5760, 8232, 8233, 8239, 8287, 12288} \<or> (8192 \<le> c \<and> c \<le> 8202)),
      isdecimal = (\<lambda>c. list_ex (\<lambda>(a, b). a \<le> c \<and> c \<le> b) decimal_ranges),
      str_lower = (\<lambda>s. concat (map lower_point s))\<rparr>"

subsection \<open>The host\<close>

text \<open>
  The installer changes the machine it runs on, and asks it the same question before and
  after (the version probe of a tool, before and after installing it). So the host is a
  state \<open>'w\<close> of any type, with the operations the installer uses on it. Starting a process
  either fails (\<open>subprocess.run\<close> raises \<open>OSError\<close>, \<open>FileNotFoundError\<close> when the program is
  not on the search path) or gives an exit status and the bytes of the two captured
  streams, which \<open>subprocess.run\<close> then decodes with the codec of the locale (\<open>text=True\<close>).
  Reading a text file gives the string that \<open>f.read()\<close> returns, or fails: with
  \<open>FileNotFoundError\<close>, which \<open>check_kali_linux\<close> passes over, or with another exception
  (no permission, bytes that do not decode), which it does not catch.
\<close>

datatype ran = Done int string string | Raised

datatype read_result = Content str | File_not_found | Read_error exn

record 'w host =
  exec :: "string list \<Rightarrow> 'w \<Rightarrow> ran \<times> 'w"
  on_path :: "string \<Rightarrow> 'w \<Rightarrow> bool"
  read_text :: "path \<Rightarrow> 'w \<Rightarrow> read_result"
  geteuid :: "'w \<Rightarrow> nat"
  mkdir :: "path \<Rightarrow> bool \<Rightarrow> 'w \<Rightarrow> bool \<times> 'w"
  home_dir :: "'w \<Rightarrow> string"
  environ_path :: "'w \<Rightarrow> string"
  codec :: "string \<Rightarrow> str option"
  tables :: unicode

record 'w istate =
  world :: 'w
  events :: "event list"

definition go_tools :: "(string \<times> string) list" where
  "go_tools =
     [(''subfinder'', ''github.com/projectdiscovery/subfinder/v2/cmd/subfinder@latest''),
      (''amass'', ''github.com/owasp-amass/amass/v4/...@latest''),
      (''dnsx'', ''github.com/projectdiscovery/dnsx/cmd/dnsx@latest''),
      (''naabu'', ''github.com/projectdiscovery/naabu/v2/cmd/naabu@latest''),
      (''httpx'', ''github.com/projectdiscovery/httpx/cmd/httpx@latest''),
      (''nuclei'', ''github.com/projectdiscovery/nuclei/v3/cmd/nuclei@latest''),
      (''gau'', ''github.com/lc/gau/v2/cmd/gau@latest''),
      (''unfurl'', ''github.com/tomnomnom/unfurl@latest''),
      (''gowitness'', ''github.com/jaeles-project/gowitness@latest'')]"

definition apt_packages :: "string list" where
  "apt_packages =
     [''golang-go'', ''git'', ''curl'', ''jq'', ''python3-pip'', ''chromium'', ''build-essential'',
      ''pkg-config'']"

definition directories :: "path list" where
  "directories = [''output'', ''output/js_out'', ''screenshots'']"

definition say_text :: "level \<Rightarrow> str \<Rightarrow> 'w istate \<Rightarrow> 'w istate" where
  "say_text l m st = st\<lparr>events := events st @ [Log l m]\<rparr>"

definition say :: "level \<Rightarrow> string \<Rightarrow> 'w istate \<Rightarrow> 'w istate" where
  "say l m st = say_text l (lit m) st"

text \<open>
  \<open>run_command\<close> of the installer. Both streams are captured and decoded (standard output
  first) once the process has ended, before the exit status is looked at; bytes that do not
  decode raise \<open>UnicodeDecodeError\<close>. Only \<open>CalledProcessError\<close> is caught, and only
  \<open>check\<close> makes \<open>subprocess.run\<close> raise it.
\<close>

definition run_command_inst ::
  "'w host \<Rightarrow> string list \<Rightarrow> bool \<Rightarrow> 'w istate \<Rightarrow> (exn + bool \<times> str) \<times> 'w istate" where
  "run_command_inst h command check st =
     (case exec h command (world st) of
        (Raised, w) \<Rightarrow> (Inl OSError, st\<lparr>world := w, events := events st @ [Spawn command]\<rparr>)
      | (Done rc sout serr, w) \<Rightarrow>
          (case codec h sout of
             None \<Rightarrow> Inl UnicodeDecodeError
           | Some out_text \<Rightarrow>
               (case codec h serr of
                  None \<Rightarrow> Inl UnicodeDecodeError
                | Some err_text \<Rightarrow>
                    if check \<and> rc \<noteq> 0 then Inr (False, translate_newlines err_text)
                    else Inr (True, translate_newlines out_text)),
           st\<lparr>world := w, events := events st @ [Spawn command]\<rparr>))"

definition check_command_exists :: "'w host \<Rightarrow> string \<Rightarrow> 'w istate \<Rightarrow> bool" where
  "check_command_exists h command st = on_path h command (world st)"

definition version_flags :: "string list" where
  "version_flags = [''--version'', ''-version'', ''-v'', ''version'']"

fun try_version_flags ::
  "'w host \<Rightarrow> string \<Rightarrow> string list \<Rightarrow> 'w istate \<Rightarrow> (exn + str option) \<times> 'w istate" where
  "try_version_flags h tool_name [] st = (Inr None, st)"
| "try_version_flags h tool_name (flag # flags) st =
     (case run_command_inst h [tool_name, flag] False st of
        (Inl e, st1) \<Rightarrow> (Inl e, st1)
      | (Inr (success, output), st1) \<Rightarrow>
          if success \<and> strip (tables h) output \<noteq> []
          then (Inr (Some (version_of (tables h) output)), st1)
          else try_version_flags h tool_name flags st1)"

definition get_tool_version ::
  "'w host \<Rightarrow> string \<Rightarrow> 'w istate \<Rightarrow> (exn + str option) \<times> 'w istate" where
  "get_tool_version h tool_name st = try_version_flags h tool_name version_flags st"

text \<open>Python's truth value of an \<open>Optional[str]\<close>: \<open>None\<close> and the empty string are false.\<close>

definition truthy :: "str option \<Rightarrow> bool" where
  "truthy v = (case v of None \<Rightarrow> False | Some s \<Rightarrow> s \<noteq> [])"

fun update_loop :: "'w host \<Rightarrow> string list list \<Rightarrow> 'w istate \<Rightarrow> (exn + bool) \<times> 'w istate" where
  "update_loop h [] st = (Inr True, say INFO ''System packages updated successfully'' st)"
| "update_loop h (cmd # cmds) st =
     (case run_command_inst h cmd True st of
        (Inl e, st1) \<Rightarrow> (Inl e, st1)
      | (Inr (success, output), st1) \<Rightarrow>
          if \<not> success then
            (Inr False,
             say_text ERROR (lit ''Error: '' @ output) (say ERROR (''Failed to run: '' @ join '' '' cmd) st1))
          else update_loop h cmds st1)"

definition update_system_packages :: "'w host \<Rightarrow> 'w istate \<Rightarrow> (exn + bool) \<times> 'w istate" where
  "update_system_packages h st =
     update_loop h [[''apt'', ''update''], [''apt'', ''upgrade'', ''-y'']]
       (say INFO ''[+] Updating APT packages...'' st)"

definition check_apt_package_installed ::
  "'w host \<Rightarrow> string \<Rightarrow> 'w istate \<Rightarrow> (exn + bool) \<times> 'w istate" where
  "check_apt_package_installed h package st =
     (case run_command_inst h [''dpkg'', ''-l'', package] False st of
        (Inl e, st1) \<Rightarrow> (Inl e, st1)
      | (Inr (success, output), st1) \<Rightarrow> (Inr (success \<and> contains (lit package) output), st1))"

definition force_install_apt_packages :: "'w host \<Rightarrow> 'w istate \<Rightarrow> (exn + bool) \<times> 'w istate" where
  "force_install_apt_packages h st =
     (case run_command_inst h ([''apt'', ''install'', ''-y'', ''--reinstall''] @ apt_packages) True
             (say INFO (''[+] Force installing packages: '' @ join '', '' apt_packages)
                (say INFO ''[+] Force installing APT packages...'' st)) of
        (Inl e, st1) \<Rightarrow> (Inl e, st1)
      | (Inr (success, output), st1) \<Rightarrow>
          if \<not> success
          then (Inr False, say_text ERROR (lit ''Failed to install APT packages: '' @ output) st1)
          else (Inr True, say INFO ''APT packages force installed successfully'' st1))"

fun missing_loop ::
  "'w host \<Rightarrow> string list \<Rightarrow> string list \<Rightarrow> 'w istate \<Rightarrow> (exn + string list) \<times> 'w istate" where
  "missing_loop h [] missing_packages st = (Inr missing_packages, st)"
| "missing_loop h (package # packages) missing_packages st =
     (case check_apt_package_installed h package st of
        (Inl e, st1) \<Rightarrow> (Inl e, st1)
      | (Inr installed, st1) \<Rightarrow>
          if \<not> installed then
            missing_loop h packages (missing_packages @ [package])
              (say INFO (''[+] '' @ package @ '' not found, will install'') st1)
          else missing_loop h packages missing_packages (say INFO (package @ '' already installed'') st1))"

definition install_apt_packages :: "'w host \<Rightarrow> 'w istate \<Rightarrow> (exn + bool) \<times> 'w istate" where
  "install_apt_packages h st =
     (case missing_loop h apt_packages [] (say INFO ''[+] Installing dependencies...'' st) of
        (Inl e, st1) \<Rightarrow> (Inl e, st1)
      | (Inr missing_packages, st1) \<Rightarrow>
          if missing_packages = [] then (Inr True, say INFO ''All APT packages are already installed'' st1)
          else
            (case run_command_inst h ([''apt'', ''install'', ''-y''] @ missing_packages) True
                    (say INFO (''[+] Installing missing packages: '' @ join '', '' missing_packages) st1) of
               (Inl e, st2) \<Rightarrow> (Inl e, st2)
             | (Inr (success, output), st2) \<Rightarrow>
                 if \<not> success
                 then (Inr False, say_text ERROR (lit ''Failed to install APT packages: '' @ output) st2)
                 else (Inr True, say INFO ''APT packages installed successfully'' st2)))"

definition os_path_join :: "string \<Rightarrow> string \<Rightarrow> string" where
  "os_path_join a b = (if a = [] then b else if last a = CHR ''/'' then a @ b else a @ ''/'' @ b)"

text \<open>\<open>Path(p).mkdir(exist_ok=True)\<close> outside any \<open>try\<close>: a failure leaves the function.\<close>

definition mkdir_or_raise :: "'w host \<Rightarrow> path \<Rightarrow> 'w istate \<Rightarrow> (exn + unit) \<times> 'w istate" where
  "mkdir_or_raise h p st =
     (case mkdir h p False (world st) of
        (ok, w) \<Rightarrow>
          (if ok then Inr () else Inl OSError, st\<lparr>world := w, events := events st @ [Mkdir p]\<rparr>))"

definition warn_go_bin :: "'w host \<Rightarrow> string \<Rightarrow> 'w istate \<Rightarrow> 'w istate" where
  "warn_go_bin h go_bin st =
     (if \<not> contains go_bin (environ_path h (world st)) then
        say WARNING (''    Or add to ~/.bashrc: echo 'export PATH=$PATH:'' @ go_bin @ CHR 0x27 # '' >> ~/.bashrc'')
          (say WARNING (''    export PATH=$PATH:'' @ go_bin)
             (say WARNING (''[!] '' @ go_bin @ '' is not in PATH. Please add it to your PATH:'') st))
      else st)"

definition setup_go_environment :: "'w host \<Rightarrow> 'w istate \<Rightarrow> (exn + bool) \<times> 'w istate" where
  "setup_go_environment h start =
     (let st = say INFO ''[+] Setting up Go environment...'' start
      in if \<not> check_command_exists h ''go'' st
         then (Inr False, say ERROR ''Go is not installed. Please install it first.'' st)
         else
           (case run_command_inst h [''go'', ''version''] True st of
              (Inl e, st1) \<Rightarrow> (Inl e, st1)
            | (Inr (success, output), st1) \<Rightarrow>
                (let st2 = (if success then say_text INFO (strip (tables h) output) st1 else st1);
                     go_path = os_path_join (home_dir h (world st2)) ''go'';
                     go_bin = os_path_join go_path ''bin''
                 in case mkdir_or_raise h go_path st2 of
                      (Inl e, st3) \<Rightarrow> (Inl e, st3)
                    | (Inr u, st3) \<Rightarrow>
                        (case mkdir_or_raise h go_bin st3 of
                           (Inl e, st4) \<Rightarrow> (Inl e, st4)
                         | (Inr u', st4) \<Rightarrow> (Inr True, warn_go_bin h go_bin st4)))))"

definition log_installed :: "string \<Rightarrow> str option \<Rightarrow> 'w istate \<Rightarrow> 'w istate" where
  "log_installed tool_name version st =
     (if truthy version then say_text INFO (lit (''Installed '' @ tool_name @ '' '') @ the version) st
      else say WARNING (''[!] '' @ tool_name @ '' installed but version check failed'') st)"

fun force_install_go_tools_loop ::
  "'w host \<Rightarrow> (string \<times> string) list \<Rightarrow> 'w istate \<Rightarrow> (exn + bool) \<times> 'w istate" where
  "force_install_go_tools_loop h [] st = (Inr True, st)"
| "force_install_go_tools_loop h ((tool_name, tool_path) # tools) st =
     (case run_command_inst h [''go'', ''install'', ''-v'', tool_path] True
             (say INFO (''[+] Force installing '' @ tool_name @ ''...'') st) of
        (Inl e, st1) \<Rightarrow> (Inl e, st1)
      | (Inr (success, output), st1) \<Rightarrow>
          if \<not> success
          then (Inr False, say_text ERROR (lit (''Failed to install '' @ tool_name @ '': '') @ output) st1)
          else
            (case get_tool_version h tool_name st1 of
               (Inl e, st2) \<Rightarrow> (Inl e, st2)
             | (Inr version, st2) \<Rightarrow>
                 force_install_go_tools_loop h tools (log_installed tool_name version st2)))"

definition force_install_go_tools :: "'w host \<Rightarrow> 'w istate \<Rightarrow> (exn + bool) \<times> 'w istate" where
  "force_install_go_tools h st =
     force_install_go_tools_loop h go_tools (say INFO ''[+] Force installing Go-based tools...'' st)"

fun install_go_tools_loop ::
  "'w host \<Rightarrow> (string \<times> string) list \<Rightarrow> 'w istate \<Rightarrow> (exn + bool) \<times> 'w istate" where
  "install_go_tools_loop h [] st = (Inr True, st)"
| "install_go_tools_loop h ((tool_name, tool_path) # tools) st =
     (case get_tool_version h tool_name st of
        (Inl e, st1) \<Rightarrow> (Inl e, st1)
      | (Inr existing_version, st1) \<Rightarrow>
          if truthy existing_version
          then install_go_tools_loop h tools
                 (say_text INFO (lit (tool_name @ '' '') @ the existing_version @ lit '' already installed'') st1)
          else
            (case run_command_inst h [''go'', ''install'', ''-v'', tool_path] True
                    (say INFO (''[+] Force installing '' @ tool_name @ ''...'')
                       (say INFO (''[+] Installing '' @ tool_name @ ''...'') st1)) of
               (Inl e, st2) \<Rightarrow> (Inl e, st2)
             | (Inr (success, output), st2) \<Rightarrow>
                 if \<not> success
                 then (Inr False, say_text ERROR (lit (''Failed to install '' @ tool_name @ '': '') @ output) st2)
                 else
                   (case get_tool_version h tool_name st2 of
                      (Inl e, st3) \<Rightarrow> (Inl e, st3)
                    | (Inr version, st3) \<Rightarrow>
                        install_go_tools_loop h tools (log_installed tool_name version st3))))"

definition install_go_tools :: "'w host \<Rightarrow> 'w istate \<Rightarrow> (exn + bool) \<times> 'w istate" where
  "install_go_tools h st =
     install_go_tools_loop h go_tools (say INFO ''[+] Installing Go-based tools...'' st)"

definition update_nuclei_templates :: "'w host \<Rightarrow> 'w istate \<Rightarrow> (exn + bool) \<times> 'w istate" where
  "update_nuclei_templates h st =
     (case run_command_inst h [''nuclei'', ''-update-templates''] True
             (say INFO ''[+] Updating Nuclei templates...'' st) of
        (Inl e, st1) \<Rightarrow> (Inl e, st1)
      | (Inr (success, output), st1) \<Rightarrow>
          if \<not> success
          then (Inr False, say_text ERROR (lit ''Failed to update Nuclei templates: '' @ output) st1)
          else (Inr True, say INFO ''Nuclei templates updated successfully'' st1))"

fun create_directories_inst_loop :: "'w host \<Rightarrow> path list \<Rightarrow> 'w istate \<Rightarrow> bool \<times> 'w istate" where
  "create_directories_inst_loop h [] st = (True, st)"
| "create_directories_inst_loop h (directory # ds) st =
     (case mkdir h directory True (world st) of
        (ok, w) \<Rightarrow>
          (let st1 = st\<lparr>world := w, events := events st @ [Mkdir directory]\<rparr>
           in if ok
              then create_directories_inst_loop h ds (say INFO (''Created directory: '' @ directory @ ''/'') st1)
              else (False, say ERROR (''Failed to create directory '' @ directory) st1)))"

definition create_directories_inst :: "'w host \<Rightarrow> 'w istate \<Rightarrow> (exn + bool) \<times> 'w istate" where
  "create_directories_inst h st =
     (case create_directories_inst_loop h directories (say INFO ''[+] Creating directories...'' st) of
        (ok, st1) \<Rightarrow> (Inr ok, st1))"

fun verify_go_loop ::
  "'w host \<Rightarrow> (string \<times> string) list \<Rightarrow> bool \<Rightarrow> 'w istate \<Rightarrow> (exn + bool) \<times> 'w istate" where
  "verify_go_loop h [] all_good st = (Inr all_good, st)"
| "verify_go_loop h ((tool_name, tool_path) # tools) all_good st =
     (case get_tool_version h tool_name st of
        (Inl e, st1) \<Rightarrow> (Inl e, st1)
      | (Inr version, st1) \<Rightarrow>
          if truthy version
          then verify_go_loop h tools all_good (say_text INFO (lit (tool_name @ '': '') @ the version) st1)
          else verify_go_loop h tools False
                 (say ERROR (tool_name @ '': Not found or version check failed'') st1))"

fun verify_other_loop :: "'w host \<Rightarrow> string list \<Rightarrow> 'w istate \<Rightarrow> (exn + unit) \<times> 'w istate" where
  "verify_other_loop h [] st = (Inr (), st)"
| "verify_other_loop h (tool # tools) st =
     (if check_command_exists h tool st then
        (case get_tool_version h tool st of
           (Inl e, st1) \<Rightarrow> (Inl e, st1)
         | (Inr version, st1) \<Rightarrow>
             if truthy version
             then verify_other_loop h tools (say_text INFO (lit (tool @ '': '') @ the version) st1)
             else verify_other_loop h tools (say INFO (tool @ '': Installed'') st1))
      else verify_other_loop h tools (say WARNING (''[!] '' @ tool @ '': Not found in PATH'') st))"

definition other_tools :: "string list" where
  "other_tools = [''ffuf'', ''curl'', ''jq'', ''git'']"

definition verify_installations :: "'w host \<Rightarrow> 'w istate \<Rightarrow> (exn + bool) \<times> 'w istate" where
  "verify_installations h st =
     (case verify_go_loop h go_tools True (say INFO ''[+] Verifying installations...'' st) of
        (Inl e, st1) \<Rightarrow> (Inl e, st1)
      | (Inr all_good, st1) \<Rightarrow>
          (case verify_other_loop h other_tools st1 of
             (Inl e, st2) \<Rightarrow> (Inl e, st2)
           | (Inr u, st2) \<Rightarrow> (Inr all_good, st2)))"

text \<open>
  \<open>check_kali_linux\<close>: a file that does not exist is passed over
  (\<open>except FileNotFoundError: pass\<close>); any other failure to read leaves the function. The
  test on what was read is \<open>'kali' in content.lower()\<close>.
\<close>

definition says_kali :: "unicode \<Rightarrow> read_result \<Rightarrow> bool" where
  "says_kali u r =
     (case r of
        Content content \<Rightarrow> contains (lit ''kali'') (lower u content)
      | File_not_found \<Rightarrow> False
      | Read_error e \<Rightarrow> False)"

definition check_kali_linux :: "'w host \<Rightarrow> 'w istate \<Rightarrow> exn + bool" where
  "check_kali_linux h st =
     (case read_text h ''/etc/os-release'' (world st) of
        Read_error e \<Rightarrow> Inl e
      | r1 \<Rightarrow>
          if says_kali (tables h) r1 then Inr True
          else
            (case read_text h ''/etc/issue'' (world st) of
               Read_error e \<Rightarrow> Inl e
             | r2 \<Rightarrow> if says_kali (tables h) r2 then Inr True else Inr False))"

datatype step =
    Update_system_packages
  | Force_install_apt_packages
  | Install_apt_packages
  | Setup_go_environment
  | Force_install_go_tools
  | Install_go_tools
  | Update_nuclei_templates
  | Create_directories
  | Verify_installations

definition steps :: "bool \<Rightarrow> (string \<times> step) list" where
  "steps force =
     [(''Update system packages'', Update_system_packages)]
     @ (if force then [(''Force install APT packages'', Force_install_apt_packages)]
        else [(''Install APT packages'', Install_apt_packages)])
     @ [(''Setup Go environment'', Setup_go_environment)]
     @ (if force then [(''Force install Go tools'', Force_install_go_tools)]
        else [(''Install Go tools'', Install_go_tools)])
     @ [(''Update Nuclei templates'', Update_nuclei_templates),
        (''Create directories'', Create_directories),
        (''Verify installations'', Verify_installations)]"

definition step_func :: "'w host \<Rightarrow> step \<Rightarrow> 'w istate \<Rightarrow> (exn + bool) \<times> 'w istate" where
  "step_func h s =
     (case s of
        Update_system_packages \<Rightarrow> update_system_packages h
      | Force_install_apt_packages \<Rightarrow> force_install_apt_packages h
      | Install_apt_packages \<Rightarrow> install_apt_packages h
      | Setup_go_environment \<Rightarrow> setup_go_environment h
      | Force_install_go_tools \<Rightarrow> force_install_go_tools h
      | Install_go_tools \<Rightarrow> install_go_tools h
      | Update_nuclei_templates \<Rightarrow> update_nuclei_templates h
      | Create_directories \<Rightarrow> create_directories_inst h
      | Verify_installations \<Rightarrow> verify_installations h)"

fun run_steps :: "'w host \<Rightarrow> (string \<times> step) list \<Rightarrow> 'w istate \<Rightarrow> (exn + bool) \<times> 'w istate" where
  "run_steps h [] st = (Inr True, st)"
| "run_steps h ((label, s) # rest) st =
     (case step_func h s (say INFO (''--- '' @ label @ '' ---'') st) of
        (Inl e, st1) \<Rightarrow> (Inl e, st1)
      | (Inr ok, st1) \<Rightarrow>
          if \<not> ok then (Inr False, say ERROR (''Installation failed at: '' @ label) st1)
          else run_steps h rest st1)"

text \<open>The five lines logged after a complete installation.\<close>

definition next_steps :: "'w istate \<Rightarrow> 'w istate" where
  "next_steps st =
     say INFO ''   4. Start building your recon pipeline!''
       (say INFO (''   3. Or add to ~/.bashrc: echo 'export PATH=$PATH:$HOME/go/bin''
                  @ CHR 0x27 # '' >> ~/.bashrc'')
          (say INFO ''   2. Run: export PATH=$PATH:$HOME/go/bin''
             (say INFO ''   1. Add $HOME/go/bin to your PATH if not already done''
                (say INFO ''Next steps:'' st))))"

definition install :: "'w host \<Rightarrow> bool \<Rightarrow> 'w istate \<Rightarrow> (exn + bool) \<times> 'w istate" where
  "install h force start =
     (let st1 = say INFO ''Starting Automated Recon Pipeline Installation...'' start;
          st = (if force
                then say INFO ''Force installation mode enabled - will reinstall all tools'' st1
                else st1)
      in case check_kali_linux h st of
           Inl e \<Rightarrow> (Inl e, st)
         | Inr False \<Rightarrow>
             (Inr False,
              say ERROR ''Please run this script on a Kali Linux system''
                (say ERROR ''This tool is designed specifically for Kali Linux'' st))
         | Inr True \<Rightarrow>
             if geteuid h (world st) \<noteq> 0
             then (Inr False, say ERROR ''This script must be run as root (use sudo)'' st)
             else
               (case run_steps h (steps force) st of
                  (Inr True, st2) \<Rightarrow> (Inr True, next_steps (say INFO ''Installation complete!'' st2))
                | (r, st2) \<Rightarrow> (r, st2)))"

definition main_inst :: "'w host \<Rightarrow> bool \<Rightarrow> 'w istate \<Rightarrow> int \<times> 'w istate" where
  "main_inst h force st =
     (case install h force st of
        (Inr success, st1) \<Rightarrow> (if success then 0 else 1, st1)
      | (Inl e, st1) \<Rightarrow> (1, say ERROR ''Unexpected error'' st1))"

subsection \<open>Example hosts\<close>

text \<open>A host that answers every command from a fixed table and never changes. A program
  is on its search path when starting it alone does not fail. Its locale has the codec
  \<open>ascii\<close>.\<close>

definition simple_host :: "(string list \<Rightarrow> ran) \<Rightarrow> read_result \<Rightarrow> nat \<Rightarrow> unit host" where
  "simple_host table identity euid =
     \<lparr>exec = (\<lambda>c w. (table c, w)),
      on_path = (\<lambda>c w. table [c] \<noteq> Raised),
      read_text = (\<lambda>p w. identity),
      geteuid = (\<lambda>w. euid),
      mkdir = (\<lambda>p parents w. (True, w)),
      home_dir = (\<lambda>w. ''/root''),
      environ_path = (\<lambda>w. ''/usr/local/bin:/usr/bin:/bin''),
      codec = ascii_codec,
      tables = sample_unicode\<rparr>"

definition init :: "unit istate" where
  "init = \<lparr>world = (), events = []\<rparr>"

definition newline :: string where
  "newline = [CHR 0x0A]"

definition kali :: read_result where
  "kali = Content (lit ''ID=kali'')"

text \<open>A Kali host, run as root, on which \<open>subfinder\<close> is not installed; every other command
  succeeds and prints one line.\<close>

definition fresh_host :: "unit host" where
  "fresh_host =
     simple_host (\<lambda>c. if take 1 c = [''subfinder''] then Raised else Done 0 (''ok'' @ newline) []) kali 0"


definition blank_host :: "unit host" where
  "blank_host = simple_host (\<lambda>c. Done 1 newline []) kali 0"

definition version_line :: string where
  "version_line = ''subfinder version v2.6.3'' @ newline"


text \<open>Every command prints a version line and exits with status 2.\<close>

definition versioned_host :: "unit host" where
  "versioned_host = simple_host (\<lambda>c. Done 2 version_line []) kali 0"



text \<open>Every command exits with status 0 and prints one byte that is not ASCII.\<close>

definition garbled_host :: "unit host" where
  "garbled_host = simple_host (\<lambda>c. Done 0 [CHR 0xFF] []) kali 0"




definition after_run :: "'w istate \<Rightarrow> string list \<Rightarrow> 'w \<Rightarrow> 'w istate" where
  "after_run st command w = st\<lparr>world := w, events := events st @ [Spawn command]\<rparr>"
section \<open>Properties of the pipeline runner\<close>

lemma spawned_append: "spawned (xs @ ys) = spawned xs @ spawned ys"
  by (induction xs rule: spawned.induct) auto

lemma opened_append: "opened (xs @ ys) = opened xs @ opened ys"
  by (induction xs rule: opened.induct) auto

lemma made_dirs_append: "made_dirs (xs @ ys) = made_dirs xs @ made_dirs ys"
  by (induction xs rule: made_dirs.induct) auto

lemmas trace_append = spawned_append opened_append made_dirs_append

lemma logger_simps:
  "trace (logger l m st) = trace st @ [Log l (lit m)]"
  "files (logger l m st) = files st"
  "current_step (logger l m st) = current_step st"
  "trace (logger_text l t st) = trace st @ [Log l t]"
  "files (logger_text l t st) = files st"
  "current_step (logger_text l t st) = current_step st"
  by (simp_all add: logger_def logger_text_def)

lemma log_step_simps:
  "trace (log_step n st) = trace st @ [Log_step (Suc (current_step st)) total_steps n]"
  "files (log_step n st) = files st"
  "current_step (log_step n st) = Suc (current_step st)"
  by (simp_all add: log_step_def Let_def)

lemma check_file_created_simps:
  "files (snd (check_file_created p st)) = files st"
  "spawned (trace (snd (check_file_created p st))) = spawned (trace st)"
  "opened (trace (snd (check_file_created p st))) = opened (trace st)"
  "made_dirs (trace (snd (check_file_created p st))) = made_dirs (trace st)"
  "current_step (snd (check_file_created p st)) = current_step st"
  by (simp_all add: check_file_created_def logger_simps trace_append split: option.splits)

lemma post_stage_simps:
  "files (post_stage q st) = files st"
  "spawned (trace (post_stage q st)) = spawned (trace st)"
  "opened (trace (post_stage q st)) = opened (trace st)"
  "made_dirs (trace (post_stage q st)) = made_dirs (trace st)"
  "current_step (post_stage q st) = current_step st"
  by (simp_all add: post_stage_def check_file_created_simps logger_simps trace_append split: post.splits)

lemma redirect_of_cases:
  "redirect_of f = Some p \<Longrightarrow> f = Some p"
  by (simp add: redirect_of_def split: option.splits if_splits)

lemma finish_run_snd: "snd (finish_run env r redirected check st) = st"
  by (simp add: finish_run_def split: option.splits)

lemma invoke_result:
  "fst (invoke env s st) =
     (case redirect_of (output_file s) of
        Some f \<Rightarrow>
          if \<not> open_ok env f then Inl OSError
          else
            (case proc env (argv_of s) of
               Not_started \<Rightarrow> Inl OSError
             | Completed r \<Rightarrow>
                 (case decode env (stderr r) of
                    None \<Rightarrow> Inl UnicodeDecodeError
                  | Some e \<Rightarrow>
                      if returncode r \<noteq> 0 then Inr (False, translate_newlines e)
                      else Inr (True, lit ''Command executed successfully'')))
      | None \<Rightarrow>
          (case proc env (argv_of s) of
             Not_started \<Rightarrow> Inl OSError
           | Completed r \<Rightarrow>
               (case decode env (stdout r) of
                  None \<Rightarrow> Inl UnicodeDecodeError
                | Some t \<Rightarrow>
                    (case decode env (stderr r) of
                       None \<Rightarrow> Inl UnicodeDecodeError
                     | Some e \<Rightarrow>
                         if returncode r \<noteq> 0 then Inr (False, translate_newlines e)
                         else Inr (True, translate_newlines t)))))"
  by (simp add: invoke_def argv_of_def run_command_def run_shell_command_def finish_run_def Let_def
      split: invocation.splits option.splits outcome.splits)

lemma invoke_trace:
  "trace (snd (invoke env s st)) =
     trace st @
       (case redirect_of (output_file s) of
          Some f \<Rightarrow> if open_ok env f then [OpenW f, Spawn (argv_of s)] else [OpenW f]
        | None \<Rightarrow> [Spawn (argv_of s)])"
  by (simp add: invoke_def argv_of_def run_command_def run_shell_command_def finish_run_snd Let_def
      split: invocation.splits option.splits outcome.splits)

lemma invoke_files:
  "files (snd (invoke env s st)) =
     (case redirect_of (output_file s) of
        Some f \<Rightarrow>
          if \<not> open_ok env f then files st
          else
            (case proc env (argv_of s) of
               Not_started \<Rightarrow> (files st)(f \<mapsto> [])
             | Completed r \<Rightarrow> (effect r ((files st)(f \<mapsto> [])))(f \<mapsto> stdout r))
      | None \<Rightarrow>
          (case proc env (argv_of s) of
             Not_started \<Rightarrow> files st
           | Completed r \<Rightarrow> effect r (files st)))"
  by (simp add: invoke_def argv_of_def run_command_def run_shell_command_def finish_run_snd Let_def
      split: invocation.splits option.splits outcome.splits)

lemma invoke_step: "current_step (snd (invoke env s st)) = current_step st"
  by (simp add: invoke_def argv_of_def run_command_def run_shell_command_def finish_run_snd Let_def
      split: invocation.splits option.splits outcome.splits)

text \<open>The result of one block: an exception, the block's \<open>return False\<close>, or falling
  through.\<close>

lemma run_stage_result:
  "fst (run_stage env s st) =
     (if \<not> opens env s then Inl OSError
      else
        (case proc env (argv_of s) of
           Not_started \<Rightarrow> Inl OSError
         | Completed r \<Rightarrow>
             if \<not> decodes env s then Inl UnicodeDecodeError else Inr (returncode r = 0)))"
proof -
  obtain r st1 where i: "invoke env s (log_step (step_name s) st) = (r, st1)"
    by (cases "invoke env s (log_step (step_name s) st)")
  have r: "r = fst (invoke env s (log_step (step_name s) st))" by (simp add: i)
  show ?thesis
    unfolding run_stage_def i
    by (simp add: r invoke_result opens_def decodes_def split: outcome.splits option.splits)
qed

lemma run_stage_continue: "fst (run_stage env s st) = Inr True \<longleftrightarrow> passes env s"
  by (simp add: run_stage_result passes_def exits_zero_def split: outcome.splits)

lemma run_stage_trace_proj:
  "spawned (trace (snd (run_stage env s st))) =
     spawned (trace st) @ (if opens env s then [argv_of s] else [])"
  "opened (trace (snd (run_stage env s st))) =
     opened (trace st) @ (case redirect_of (output_file s) of Some f \<Rightarrow> [f] | None \<Rightarrow> [])"
  "made_dirs (trace (snd (run_stage env s st))) = made_dirs (trace st)"
proof -
  obtain r st1 where i: "invoke env s (log_step (step_name s) st) = (r, st1)"
    by (cases "invoke env s (log_step (step_name s) st)")
  have t: "trace st1 = trace (log_step (step_name s) st) @
       (case redirect_of (output_file s) of
          Some f \<Rightarrow> if open_ok env f then [OpenW f, Spawn (argv_of s)] else [OpenW f]
        | None \<Rightarrow> [Spawn (argv_of s)])"
    using invoke_trace [of env s "log_step (step_name s) st"] by (simp add: i)
  show "spawned (trace (snd (run_stage env s st))) =
     spawned (trace st) @ (if opens env s then [argv_of s] else [])"
    by (simp add: run_stage_def i t trace_append log_step_simps logger_simps post_stage_simps opens_def
        split: sum.splits option.splits prod.splits)
  show "opened (trace (snd (run_stage env s st))) =
     opened (trace st) @ (case redirect_of (output_file s) of Some f \<Rightarrow> [f] | None \<Rightarrow> [])"
    by (simp add: run_stage_def i t trace_append log_step_simps logger_simps post_stage_simps
        split: sum.splits option.splits prod.splits)
  show "made_dirs (trace (snd (run_stage env s st))) = made_dirs (trace st)"
    by (simp add: run_stage_def i t trace_append log_step_simps logger_simps post_stage_simps
        split: sum.splits option.splits prod.splits)
qed

lemma run_stage_files:
  "files (snd (run_stage env s st)) = files (snd (invoke env s (log_step (step_name s) st)))"
  by (cases "invoke env s (log_step (step_name s) st)")
     (simp add: run_stage_def logger_simps post_stage_simps split: sum.splits prod.splits)

lemma length_stages: "length (stages target) = 21"
  by (simp add: stages_def)

text \<open>The 21 processes of a run have pairwise different argument vectors, whatever the
  target is, so a table from argument vectors gives each stage an outcome of its own.\<close>

lemma stage_commands_distinct: "distinct (map argv_of (stages target))"
  by (simp add: stages_def mk_stage_def argv_of_def out_def output_dir_def)

lemma run_stages_append:
  "run_stages env (xs @ ys) st =
     (case run_stages env xs st of
        (Inr True, st1) \<Rightarrow> run_stages env ys st1
      | (r, st1) \<Rightarrow> (r, st1))"
proof (induction xs arbitrary: st)
  case Nil
  show ?case by simp
next
  case (Cons x xs)
  obtain r st1 where x: "run_stage env x st = (r, st1)" by (cases "run_stage env x st")
  show ?case
    by (simp add: x Cons.IH split: sum.splits bool.splits)
qed

lemma run_stages_all_zero:
  "list_all (passes env) ss \<Longrightarrow> fst (run_stages env ss st) = Inr True"
proof (induction ss arbitrary: st)
  case Nil
  show ?case by simp
next
  case (Cons s ss)
  obtain r st1 where x: "run_stage env s st = (r, st1)" by (cases "run_stage env s st")
  from Cons.prems have "passes env s" by simp
  then have "r = Inr True" using run_stage_continue [of env s st] by (simp add: x)
  with Cons show ?case by (simp add: x)
qed

lemma run_stages_result:
  "fst (run_stages env ss st) = Inr True \<longleftrightarrow> list_all (passes env) ss"
proof (induction ss arbitrary: st)
  case Nil
  show ?case by simp
next
  case (Cons s ss)
  obtain r st1 where x: "run_stage env s st = (r, st1)" by (cases "run_stage env s st")
  have r: "r = Inr True \<longleftrightarrow> passes env s"
    using run_stage_continue [of env s st] by (simp add: x)
  show ?case
  proof (cases "r = Inr True")
    case True
    with r Cons.IH [of st1] show ?thesis by (simp add: x)
  next
    case False
    with r show ?thesis by (auto simp add: x split: sum.splits bool.splits)
  qed
qed

lemma run_stages_all_zero_trace:
  "list_all (passes env) ss \<Longrightarrow>
   spawned (trace (snd (run_stages env ss st))) = spawned (trace st) @ map argv_of ss"
proof (induction ss arbitrary: st)
  case Nil
  show ?case by simp
next
  case (Cons s ss)
  obtain r st1 where x: "run_stage env s st = (r, st1)" by (cases "run_stage env s st")
  from Cons.prems have ps: "passes env s" by simp
  then have r: "r = Inr True" using run_stage_continue [of env s st] by (simp add: x)
  have "spawned (trace st1) = spawned (trace st) @ [argv_of s]"
    using run_stage_trace_proj(1) [of env s st] ps by (simp add: x passes_def)
  with Cons r show ?case by (simp add: x)
qed

lemma run_stages_stop:
  assumes "\<not> passes env s"
  shows "run_stages env (s # ss) st = run_stage env s st"
proof -
  obtain r st1 where x: "run_stage env s st = (r, st1)" by (cases "run_stage env s st")
  have "r \<noteq> Inr True" using assms run_stage_continue [of env s st] by (simp add: x)
  then show ?thesis by (auto simp add: x split: sum.splits bool.splits)
qed

text \<open>The run up to and including the first stage that does not pass.\<close>

lemma run_stages_first_failure:
  assumes k: "k < length ss"
    and ok: "list_all (passes env) (take k ss)"
    and bad: "\<not> passes env (ss ! k)"
  shows "run_stages env ss st = run_stage env (ss ! k) (snd (run_stages env (take k ss) st))"
proof -
  have split: "ss = take k ss @ (ss ! k) # drop (Suc k) ss"
    using k by (simp add: id_take_nth_drop)
  obtain st1 where t: "run_stages env (take k ss) st = (Inr True, st1)"
    using run_stages_all_zero [OF ok, of st] by (cases "run_stages env (take k ss) st") simp
  have "run_stages env ss st = run_stages env (take k ss @ (ss ! k) # drop (Suc k) ss) st"
    using split by simp
  also have "\<dots> = run_stages env ((ss ! k) # drop (Suc k) ss) st1"
    by (simp only: run_stages_append t split: prod.splits) simp
  also have "\<dots> = run_stage env (ss ! k) st1"
    by (rule run_stages_stop [OF bad])
  finally show ?thesis by (simp add: t)
qed

subsection \<open>Preflight\<close>

lemma check_tools_loop_fst:
  "fst (check_tools_loop env tools missing st) = missing @ filter (\<lambda>t. \<not> which env t) tools"
  by (induction tools arbitrary: missing st) auto

lemma check_tools_loop_frame:
  "files (snd (check_tools_loop env tools missing st)) = files st"
  "spawned (trace (snd (check_tools_loop env tools missing st))) = spawned (trace st)"
  "opened (trace (snd (check_tools_loop env tools missing st))) = opened (trace st)"
  "made_dirs (trace (snd (check_tools_loop env tools missing st))) = made_dirs (trace st)"
  "current_step (snd (check_tools_loop env tools missing st)) = current_step st"
  by (induction tools arbitrary: missing st) (auto simp add: logger_simps trace_append)

lemma check_tools_fst: "fst (check_tools env st) = tools_present env"
proof -
  obtain m st1 where c: "check_tools_loop env required_tools [] (logger INFO ''[+] Checking required tools...'' st) = (m, st1)"
    by (cases "check_tools_loop env required_tools [] (logger INFO ''[+] Checking required tools...'' st)")
  have "m = filter (\<lambda>t. \<not> which env t) required_tools"
    using check_tools_loop_fst [of env required_tools "[]" "logger INFO ''[+] Checking required tools...'' st"]
    by (simp add: c)
  then have "m = [] \<longleftrightarrow> tools_present env"
    by (simp add: tools_present_def filter_empty_conv list_all_iff)
  then show ?thesis by (simp add: check_tools_def c)
qed

lemma check_tools_frame:
  "files (snd (check_tools env st)) = files st"
  "spawned (trace (snd (check_tools env st))) = spawned (trace st)"
  "opened (trace (snd (check_tools env st))) = opened (trace st)"
  "made_dirs (trace (snd (check_tools env st))) = made_dirs (trace st)"
  "current_step (snd (check_tools env st)) = current_step st"
proof -
  obtain m st1 where c: "check_tools_loop env required_tools [] (logger INFO ''[+] Checking required tools...'' st) = (m, st1)"
    by (cases "check_tools_loop env required_tools [] (logger INFO ''[+] Checking required tools...'' st)")
  have f: "files st1 = files st" "spawned (trace st1) = spawned (trace st)"
    "opened (trace st1) = opened (trace st)" "made_dirs (trace st1) = made_dirs (trace st)"
    "current_step st1 = current_step st"
    using check_tools_loop_frame [of env required_tools "[]" "logger INFO ''[+] Checking required tools...'' st"]
    by (simp_all add: c logger_simps trace_append)
  show "files (snd (check_tools env st)) = files st"
    "spawned (trace (snd (check_tools env st))) = spawned (trace st)"
    "opened (trace (snd (check_tools env st))) = opened (trace st)"
    "made_dirs (trace (snd (check_tools env st))) = made_dirs (trace st)"
    "current_step (snd (check_tools env st)) = current_step st"
    by (simp_all add: check_tools_def c f logger_simps trace_append)
qed

lemma create_directories_loop_fst:
  "fst (create_directories_loop env ds st) = list_all (mkdir_ok env) ds"
  by (induction ds arbitrary: st) (auto simp add: Let_def)

lemma create_directories_loop_frame:
  "files (snd (create_directories_loop env ds st)) = files st"
  "spawned (trace (snd (create_directories_loop env ds st))) = spawned (trace st)"
  "opened (trace (snd (create_directories_loop env ds st))) = opened (trace st)"
  "current_step (snd (create_directories_loop env ds st)) = current_step st"
  by (induction ds arbitrary: st) (auto simp add: Let_def logger_simps trace_append)


lemma create_directories_fst: "fst (create_directories env st) = dirs_creatable env"
  by (simp add: create_directories_def dirs_creatable_def create_directories_loop_fst
      del: create_directories_loop.simps)

lemma create_directories_frame:
  "files (snd (create_directories env st)) = files st"
  "spawned (trace (snd (create_directories env st))) = spawned (trace st)"
  "opened (trace (snd (create_directories env st))) = opened (trace st)"
  "current_step (snd (create_directories env st)) = current_step st"
  by (simp_all add: create_directories_def create_directories_loop_frame logger_simps trace_append
      del: create_directories_loop.simps)


lemma preflight_fst: "fst (preflight env target st) = (tools_present env \<and> dirs_creatable env)"
proof -
  define s0 where "s0 = logger INFO (''Starting reconnaissance on: '' @ target) st"
  obtain a st1 where c: "check_tools env s0 = (a, st1)" by (cases "check_tools env s0")
  obtain b st2 where d: "create_directories env st1 = (b, st2)" by (cases "create_directories env st1")
  have a: "a = tools_present env" using check_tools_fst [of env s0] by (simp add: c)
  have b: "b = dirs_creatable env" using create_directories_fst [of env st1] by (simp add: d)
  show ?thesis
    unfolding preflight_def s0_def [symmetric]
    by (auto simp add: c d a [symmetric] b [symmetric] split: bool.splits)
qed

lemma preflight_frame:
  "files (snd (preflight env target st)) = files st"
  "spawned (trace (snd (preflight env target st))) = spawned (trace st)"
  "opened (trace (snd (preflight env target st))) = opened (trace st)"
  "current_step (snd (preflight env target st)) = current_step st"
proof -
  define s0 where "s0 = logger INFO (''Starting reconnaissance on: '' @ target) st"
  obtain a st1 where c: "check_tools env s0 = (a, st1)" by (cases "check_tools env s0")
  obtain b st2 where d: "create_directories env st1 = (b, st2)" by (cases "create_directories env st1")
  have s0: "files s0 = files st" "spawned (trace s0) = spawned (trace st)"
    "opened (trace s0) = opened (trace st)" "current_step s0 = current_step st"
    by (simp_all add: s0_def logger_simps trace_append)
  have f1: "files st1 = files st" "spawned (trace st1) = spawned (trace st)"
    "opened (trace st1) = opened (trace st)" "current_step st1 = current_step st"
    using check_tools_frame [of env s0] by (simp_all add: c s0)
  have f2: "files st2 = files st1" "spawned (trace st2) = spawned (trace st1)"
    "opened (trace st2) = opened (trace st1)" "current_step st2 = current_step st1"
    using create_directories_frame [of env st1] by (simp_all add: d)
  show "files (snd (preflight env target st)) = files st"
    "spawned (trace (snd (preflight env target st))) = spawned (trace st)"
    "opened (trace (snd (preflight env target st))) = opened (trace st)"
    "current_step (snd (preflight env target st)) = current_step st"
    unfolding preflight_def s0_def [symmetric]
    by (simp_all add: c d f1 f2 logger_simps trace_append split: bool.splits)
qed

lemma artifacts_distinct: "distinct (map artifact (stages target))"
  by (simp add: stages_def mk_stage_def artifact_def out_def output_dir_def)

lemma output_file_artifact:
  "s \<in> set (stages target) \<Longrightarrow> output_file s = None \<or> output_file s = artifact s"
  by (auto simp add: stages_def mk_stage_def artifact_def)

lemma other_stage_output:
  assumes i: "i < 21" and j: "j < 21" and ne: "i \<noteq> j"
    and a: "artifact (stages target ! i) = Some p"
  shows "output_file (stages target ! j) \<noteq> Some p"
proof
  assume o: "output_file (stages target ! j) = Some p"
  have "stages target ! j \<in> set (stages target)" using j by (simp add: length_stages)
  then have "artifact (stages target ! j) = Some p"
    using output_file_artifact [of "stages target ! j" target] o by auto
  then have "map artifact (stages target) ! i = map artifact (stages target) ! j"
    using a i j by (simp add: length_stages)
  then have "i = j"
    using nth_eq_iff_index_eq [OF artifacts_distinct [of target], of i j] i j
    by (simp add: length_stages)
  with ne show False by simp
qed

lemma run_stage_frame:
  assumes c: "proc env (argv_of s) = Completed r"
    and p: "output_file s \<noteq> Some p"
    and l: "leaves_alone r p"
  shows "files (snd (run_stage env s st)) p = files st p"
  using assms
  by (auto simp add: run_stage_files invoke_files log_step_simps leaves_alone_def
      dest: redirect_of_cases split: option.splits)

lemma main_accepts:
  "CHR ''.'' \<in> set target \<Longrightarrow>
   main env target st =
     (case run_recon env target (st\<lparr>current_step := 0\<rparr>) of
        (Inr success, st1) \<Rightarrow> (if success then 0 else 1, st1)
      | (Inl e, st1) \<Rightarrow> (1, logger ERROR ''Unexpected error'' st1))"
  by (auto simp add: main_def)

lemma redirect_of_stages:
  "s \<in> set (stages target) \<Longrightarrow> redirect_of (output_file s) = output_file s"
  by (auto simp add: stages_def mk_stage_def redirect_of_def out_def output_dir_def)



lemma run_recon_preflight_ok:
  assumes "tools_present env" "dirs_creatable env"
  shows "run_recon env target st =
     (case run_stages env (stages target) (snd (preflight env target st)) of
        (Inr True, st2) \<Rightarrow>
          (Inr True, logger INFO ''Recon complete! Results in ./output and ./screenshots'' st2)
      | (r, st2) \<Rightarrow> (r, st2))"
proof -
  obtain b st1 where pf: "preflight env target st = (b, st1)" by (cases "preflight env target st")
  have "b" using preflight_fst [of env target st] assms by (simp add: pf)
  then show ?thesis by (simp add: run_recon_def pf)
qed

lemma warnings_append: "warnings (xs @ ys) = warnings xs @ warnings ys"
  by (induction xs rule: warnings.induct) auto

lemma errors_append: "errors (xs @ ys) = errors xs @ errors ys"
  by (induction xs rule: errors.induct) auto

lemma post_stage_trace: "trace (post_stage q st) = trace st @ [report q (files st)]"
  by (simp add: post_stage_def report_def check_file_created_def has_content_def logger_simps
      split: post.splits option.splits)

lemma run_stage_zero_trace:
  assumes "passes env s"
  shows "trace (snd (run_stage env s st)) =
           trace st @ [Log_step (Suc (current_step st)) total_steps (step_name s)]
             @ (case redirect_of (output_file s) of Some f \<Rightarrow> [OpenW f] | None \<Rightarrow> [])
             @ [Spawn (argv_of s), report (post s) (files (snd (run_stage env s st)))]"
proof -
  define s1 where "s1 = log_step (step_name s) st"
  obtain r st1 where i: "invoke env s s1 = (r, st1)" by (cases "invoke env s s1")
  have "fst (run_stage env s st) = Inr True"
    using assms by (simp add: run_stage_continue)
  then have r: "\<exists>msg. r = Inr (True, msg)"
    unfolding run_stage_def s1_def [symmetric]
    by (auto simp add: i split: sum.splits prod.splits if_splits)
  have o: "opens env s" using assms by (simp add: passes_def)
  have t: "trace st1 = trace s1
      @ (case redirect_of (output_file s) of Some f \<Rightarrow> [OpenW f] | None \<Rightarrow> []) @ [Spawn (argv_of s)]"
    using invoke_trace [of env s s1] o by (auto simp add: i opens_def split: option.splits)
  have s1: "trace s1 = trace st @ [Log_step (Suc (current_step st)) total_steps (step_name s)]"
    by (simp add: s1_def log_step_simps)
  from r obtain msg where r': "r = Inr (True, msg)" by blast
  have rs: "run_stage env s st = (Inr True, post_stage (post s) st1)"
    unfolding run_stage_def s1_def [symmetric] by (simp add: i r')
  show ?thesis
    by (simp add: rs post_stage_trace post_stage_simps t s1)
qed

lemma run_stages_frame:
  "\<forall>s\<in>set ss. output_file s \<noteq> Some p \<and> tool_leaves_alone env s p \<Longrightarrow>
   files (snd (run_stages env ss st)) p = files st p"
proof (induction ss arbitrary: st)
  case Nil
  show ?case by simp
next
  case (Cons s ss)
  obtain r st1 where x: "run_stage env s st = (r, st1)" by (cases "run_stage env s st")
  from Cons.prems have o: "output_file s \<noteq> Some p" and l: "tool_leaves_alone env s p" by simp_all
  have "files (snd (run_stage env s st)) p = files st p"
    using o l
    by (auto simp add: run_stage_files invoke_files log_step_simps tool_leaves_alone_def leaves_alone_def
        dest: redirect_of_cases split: option.splits outcome.splits)
  then have f: "files st1 p = files st p" by (simp add: x)
  have "files (snd (run_stages env ss st1)) p = files st1 p"
    using Cons.IH [of st1] Cons.prems by simp
  with f show ?case
    by (auto simp add: x split: sum.splits bool.splits)
qed




text \<open>What \<open>main\<close> adds around the stages, once the target and the preflight are fine.\<close>

lemma main_run:
  assumes "tools_present env" and "dirs_creatable env" and "CHR ''.'' \<in> set target"
  shows "\<exists>logs. (\<forall>e\<in>set logs. \<exists>l m. e = Log l m)
     \<and> trace (snd (main env target st)) =
         trace (snd (run_stages env (stages target) (snd (preflight env target (st\<lparr>current_step := 0\<rparr>))))) @ logs
     \<and> files (snd (main env target st)) =
         files (snd (run_stages env (stages target) (snd (preflight env target (st\<lparr>current_step := 0\<rparr>)))))"
proof -
  define stp where "stp = snd (preflight env target (st\<lparr>current_step := 0\<rparr>))"
  obtain r st1 where rs: "run_stages env (stages target) stp = (r, st1)"
    by (cases "run_stages env (stages target) stp")
  show ?thesis
    unfolding main_accepts [OF assms(3)] run_recon_preflight_ok [OF assms(1,2)] stp_def [symmetric]
    by (cases r) (auto simp add: rs logger_simps split: bool.splits intro: exI [of _ "[]"])
qed

lemma logs_proj:
  "\<forall>e\<in>set logs. \<exists>l m. e = Log l m \<Longrightarrow> spawned logs = [] \<and> opened logs = [] \<and> made_dirs logs = []"
  by (induction logs) auto

lemma stages_without_check: "filter (\<lambda>s. artifact s = None) (stages target) = [stages target ! 11]"
  by (simp add: stages_def mk_stage_def artifact_def)

lemma stage12_post: "post (stages target ! 11) = Log_info ''Screenshots captured''"
  by (simp add: stages_def mk_stage_def)



lemma main_exit_code:
  assumes "tools_present env" and "dirs_creatable env" and "CHR ''.'' \<in> set target"
  shows "fst (main env target st) =
           (if fst (run_stages env (stages target) (snd (preflight env target (st\<lparr>current_step := 0\<rparr>))))
               = Inr True
            then 0 else 1)"
proof -
  define stp where "stp = snd (preflight env target (st\<lparr>current_step := 0\<rparr>))"
  obtain r st1 where rs: "run_stages env (stages target) stp = (r, st1)"
    by (cases "run_stages env (stages target) stp")
  show ?thesis
    unfolding main_accepts [OF assms(3)] run_recon_preflight_ok [OF assms(1,2)] stp_def [symmetric]
    by (auto simp add: rs split: sum.splits bool.splits)
qed

lemma main_exit_zero_iff:
  assumes "tools_present env" and "dirs_creatable env" and "CHR ''.'' \<in> set target"
  shows "fst (main env target st) = 0 \<longleftrightarrow> list_all (passes env) (stages target)"
  by (simp add: main_exit_code [OF assms] run_stages_result)

text \<open>A run whose first stage that does not pass is stage \<open>k + 1\<close>: the run ends there.\<close>

lemma main_first_failure:
  assumes "tools_present env" and "dirs_creatable env" and "CHR ''.'' \<in> set target"
    and k: "k < 21"
    and ok: "list_all (passes env) (take k (stages target))"
    and bad: "\<not> passes env (stages target ! k)"
  shows "fst (main env target st) = 1"
    and "spawned (trace (snd (main env target st))) =
           spawned (trace st) @ map argv_of (take k (stages target))
             @ (if opens env (stages target ! k) then [argv_of (stages target ! k)] else [])"
    and "files (snd (main env target st)) =
           files (snd (run_stage env (stages target ! k) (state_before env target st (Suc k))))"
proof -
  define stp where "stp = snd (preflight env target (st\<lparr>current_step := 0\<rparr>))"
  define stk where "stk = state_before env target st (Suc k)"
  define s where "s = stages target ! k"
  have stk: "stk = snd (run_stages env (take k (stages target)) stp)"
    by (simp add: stk_def state_before_def stp_def)
  have k1: "k < length (stages target)" using k by (simp add: length_stages)
  have run: "run_stages env (stages target) stp = run_stage env s stk"
    using run_stages_first_failure [OF k1 ok bad, of stp] by (simp add: s_def stk)
  have x: "fst (run_stage env s stk) \<noteq> Inr True"
    using bad by (simp add: run_stage_continue s_def)
  show "fst (main env target st) = 1"
    using main_exit_code [OF assms(1-3), of st] x by (simp add: stp_def [symmetric] run)
  obtain logs where logs: "\<forall>e\<in>set logs. \<exists>l m. e = Log l m"
    and t: "trace (snd (main env target st)) = trace (snd (run_stages env (stages target) stp)) @ logs"
    and f: "files (snd (main env target st)) = files (snd (run_stages env (stages target) stp))"
    using main_run [OF assms(1-3), of st] unfolding stp_def by blast
  have p: "spawned logs = []" using logs_proj [OF logs] by simp
  have sp0: "spawned (trace stp) = spawned (trace st)"
    using preflight_frame(2) [of env target "st\<lparr>current_step := 0\<rparr>"] by (simp add: stp_def)
  have spk: "spawned (trace stk) = spawned (trace st) @ map argv_of (take k (stages target))"
    using run_stages_all_zero_trace [OF ok, of stp] by (simp add: stk sp0)
  show "spawned (trace (snd (main env target st))) =
           spawned (trace st) @ map argv_of (take k (stages target))
             @ (if opens env (stages target ! k) then [argv_of (stages target ! k)] else [])"
    by (simp add: t trace_append p run run_stage_trace_proj(1) spk s_def)
  show "files (snd (main env target st)) =
           files (snd (run_stage env (stages target ! k) (state_before env target st (Suc k))))"
    by (simp add: f run s_def stk_def)
qed





lemma env_mock_pre: "tools_present env_mock" "dirs_creatable env_mock"
  by (simp_all add: tools_present_def dirs_creatable_def env_mock_def required_tools_def)

lemma env_mock_zero: "passes env_mock s"
  by (simp add: passes_def opens_def decodes_def exits_zero_def env_mock_def ok_line_def ascii_codec_def
      split: option.splits)

lemma env_mock_alone: "tool_leaves_alone env_mock s p"
  by (simp add: tool_leaves_alone_def leaves_alone_def env_mock_def ok_line_def)

lemma example_dot: "CHR ''.'' \<in> set ''example.com''"
  by simp

lemma env_amass_fails_pre: "tools_present env_amass_fails" "dirs_creatable env_amass_fails"
  by (simp_all add: tools_present_def dirs_creatable_def env_amass_fails_def required_tools_def)

lemma env_quiet_zero: "passes env_quiet s"
  by (simp add: passes_def opens_def decodes_def exits_zero_def env_quiet_def ok_quiet_def ascii_codec_def
      split: option.splits)





lemma ascii_codec_garbled: "ascii_codec [CHR 0xFF] = None"
  by (simp add: ascii_codec_def)
text \<open>
  Claim C1. For every stage index \<open>k\<close> from 1 to 21: if stage \<open>k\<close> is reached and started
  (the stages before it exited with status 0 and raised nothing, and the output file of
  stage \<open>k\<close> can be opened) and the process of stage \<open>k\<close> returns a non-zero exit status,
  then the run ends with exit status 1, the processes spawned are exactly those of stages 1
  to \<open>k\<close> in order (no later stage is invoked), and every artifact of a stage before \<open>k\<close>
  has at the end the content it had when stage \<open>k\<close> started. This holds whether or not the
  standard error of the failing process can be decoded. The runner opens no file of an
  earlier stage and removes nothing on the way out; what the failing tool does to the disk
  by itself is not in the runner's hands, so the last part is stated for a failing process
  that leaves the artifact alone.
\<close>

theorem first_failure_aborts:
  assumes pre: "tools_present env" "dirs_creatable env" "CHR ''.'' \<in> set target"
    and k: "1 \<le> k" "k \<le> 21"
    and ok: "list_all (passes env) (take (k - 1) (stages target))"
    and started: "opens env (stages target ! (k - 1))"
    and bad: "proc env (argv_of (stages target ! (k - 1))) = Completed r" "returncode r \<noteq> 0"
  shows "fst (main env target st) = 1
     \<and> spawned (trace (snd (main env target st))) =
           spawned (trace st) @ map argv_of (take k (stages target))
     \<and> (\<forall>j p. 1 \<le> j \<and> j < k \<and> artifact (stages target ! (j - 1)) = Some p \<and> leaves_alone r p \<longrightarrow>
           files (snd (main env target st)) p = files (state_before env target st k) p)"
proof -
  define s where "s = stages target ! (k - 1)"
  have k1: "k - 1 < 21" and sk: "Suc (k - Suc 0) = k" using k by simp_all
  have bad': "proc env (argv_of s) = Completed r" using bad by (simp add: s_def)
  have nz: "\<not> passes env (stages target ! (k - 1))"
    using bad by (simp add: passes_def exits_zero_def)
  have c1: "fst (main env target st) = 1"
    by (rule main_first_failure(1) [OF pre k1 ok nz])
  have "take k (stages target) = take (k - 1) (stages target) @ [s]"
    using k take_Suc_conv_app_nth [of "k - 1" "stages target"] by (simp add: s_def length_stages)
  then have c2: "spawned (trace (snd (main env target st))) =
           spawned (trace st) @ map argv_of (take k (stages target))"
    using main_first_failure(2) [OF pre k1 ok nz, of st] started by (simp add: s_def)
  have f: "files (snd (main env target st)) = files (snd (run_stage env s (state_before env target st k)))"
    using main_first_failure(3) [OF pre k1 ok nz, of st] by (simp add: sk s_def)
  have c3: "\<forall>j p. 1 \<le> j \<and> j < k \<and> artifact (stages target ! (j - 1)) = Some p \<and> leaves_alone r p \<longrightarrow>
           files (snd (main env target st)) p = files (state_before env target st k) p"
  proof (intro allI impI)
    fix j p
    assume a: "1 \<le> j \<and> j < k \<and> artifact (stages target ! (j - 1)) = Some p \<and> leaves_alone r p"
    then have "j - 1 < 21" "k - 1 < 21" "j - 1 \<noteq> k - 1"
      "artifact (stages target ! (j - 1)) = Some p"
      using k by auto
    then have "output_file s \<noteq> Some p"
      unfolding s_def by (rule other_stage_output)
    then have "files (snd (run_stage env s (state_before env target st k))) p =
        files (state_before env target st k) p"
      using run_stage_frame [of env s r p "state_before env target st k"] bad' a by simp
    then show "files (snd (main env target st)) p = files (state_before env target st k) p"
      by (simp add: f)
  qed
  show ?thesis using c1 c2 c3 by blast
qed

theorem first_failure_aborts_witness:
  "tools_present env_amass_fails \<and> dirs_creatable env_amass_fails
   \<and> CHR ''.'' \<in> set ''example.com''
   \<and> list_all (passes env_amass_fails) (take (2 - 1) (stages ''example.com''))
   \<and> opens env_amass_fails (stages ''example.com'' ! (2 - 1))
   \<and> proc env_amass_fails (argv_of (stages ''example.com'' ! (2 - 1))) = Completed failed1
   \<and> returncode failed1 \<noteq> 0
   \<and> artifact (stages ''example.com'' ! (1 - 1)) = Some ''output/01_subfinder.txt''
   \<and> leaves_alone failed1 ''output/01_subfinder.txt''
   \<and> fst (main env_amass_fails ''example.com'' st0) = 1
   \<and> spawned (trace (snd (main env_amass_fails ''example.com'' st0))) =
       [[''subfinder'', ''-d'', ''example.com'', ''-all'', ''-silent''],
        [''amass'', ''enum'', ''-passive'', ''-d'', ''example.com'']]
   \<and> files (snd (main env_amass_fails ''example.com'' st0)) ''output/01_subfinder.txt'' =
       files (state_before env_amass_fails ''example.com'' st0 2) ''output/01_subfinder.txt''"
proof -
  have h1: "list_all (passes env_amass_fails) (take (2 - 1) (stages ''example.com''))"
    by (simp add: stages_def mk_stage_def passes_def opens_def decodes_def exits_zero_def argv_of_def
        env_amass_fails_def ok_line_def ascii_codec_def redirect_of_def out_def output_dir_def)
  have h0: "opens env_amass_fails (stages ''example.com'' ! (2 - 1))"
    by (simp add: opens_def env_amass_fails_def split: option.splits)
  have h2: "proc env_amass_fails (argv_of (stages ''example.com'' ! (2 - 1))) = Completed failed1"
    by (simp add: stages_def mk_stage_def argv_of_def env_amass_fails_def)
  have h3: "returncode failed1 \<noteq> 0" by (simp add: failed1_def)
  have h4: "artifact (stages ''example.com'' ! (1 - 1)) = Some ''output/01_subfinder.txt''"
    by (simp add: stages_def mk_stage_def artifact_def out_def output_dir_def)
  have h5: "leaves_alone failed1 ''output/01_subfinder.txt''"
    by (simp add: leaves_alone_def failed1_def)
  have t: "map argv_of (take 2 (stages ''example.com'')) =
       [[''subfinder'', ''-d'', ''example.com'', ''-all'', ''-silent''],
        [''amass'', ''enum'', ''-passive'', ''-d'', ''example.com'']]"
    by (simp add: stages_def mk_stage_def argv_of_def)
  have th: "fst (main env_amass_fails ''example.com'' st0) = 1
     \<and> spawned (trace (snd (main env_amass_fails ''example.com'' st0))) =
           spawned (trace st0) @ map argv_of (take 2 (stages ''example.com''))
     \<and> (\<forall>j p. 1 \<le> j \<and> j < 2 \<and> artifact (stages ''example.com'' ! (j - 1)) = Some p \<and> leaves_alone failed1 p \<longrightarrow>
           files (snd (main env_amass_fails ''example.com'' st0)) p =
           files (state_before env_amass_fails ''example.com'' st0 2) p)"
    by (rule first_failure_aborts [OF env_amass_fails_pre example_dot _ _ h1 h0 h2 h3]) simp_all
  then have "files (snd (main env_amass_fails ''example.com'' st0)) ''output/01_subfinder.txt'' =
       files (state_before env_amass_fails ''example.com'' st0 2) ''output/01_subfinder.txt''"
    using h4 h5 by (elim conjE allE [of _ "1::nat"] allE [of _ "''output/01_subfinder.txt''"]) simp
  with th show ?thesis
    using env_amass_fails_pre h0 h1 h2 h3 h4 h5 t by (simp add: st0_def)
qed




text \<open>
  Claim C3, amended. What decides whether a stage falls through to the next one is the
  environment alone (its output file opens, its process exits with status 0, its piped
  streams decode), never what is on disk. For every stage that passes in this sense,
  execution goes on to the next stage and no error is logged. For the 20 stages that name
  an output file to check, the last thing the stage logs is the report of
  \<open>check_file_created\<close>: an INFO line when the file exists and is not empty, a WARNING line
  (a level of its own, not ERROR) when it is empty or missing. Stage 12 (gowitness) is the
  one stage without such a report: its last log line is the INFO line
  \<open>Screenshots captured\<close>, and it logs no warning. A stage whose process exits with status
  0 but whose piped stream does not decode raises \<open>UnicodeDecodeError\<close> instead.
\<close>

theorem file_check_is_advisory:
  assumes "s \<in> set (stages target)"
  shows "(fst (run_stage env s st) = Inr True \<longleftrightarrow> passes env s)
     \<and> (passes env s \<longrightarrow>
          run_stages env (s # rest) st = run_stages env rest (snd (run_stage env s st))
          \<and> errors (trace (snd (run_stage env s st))) = errors (trace st)
          \<and> (\<forall>p. post s = Check_file p \<longrightarrow>
               last (trace (snd (run_stage env s st))) =
                 (if has_content (files (snd (run_stage env s st))) p
                  then Log INFO (lit (p @ '' created successfully''))
                  else Log WARNING (lit (''[!] '' @ p @ '' is empty or not created''))))
          \<and> (\<forall>m. post s = Log_info m \<longrightarrow>
               last (trace (snd (run_stage env s st))) = Log INFO (lit m)
               \<and> warnings (trace (snd (run_stage env s st))) = warnings (trace st)))
     \<and> (opens env s \<and> exits_zero env s \<and> \<not> decodes env s \<longrightarrow>
          fst (run_stage env s st) = Inl UnicodeDecodeError)
     \<and> ((\<exists>p. post s = Check_file p) \<longleftrightarrow> s \<noteq> stages target ! 11)
     \<and> post (stages target ! 11) = Log_info ''Screenshots captured''"
proof -
  have c1: "fst (run_stage env s st) = Inr True \<longleftrightarrow> passes env s"
    by (rule run_stage_continue)
  have c2: "run_stages env (s # rest) st = run_stages env rest (snd (run_stage env s st))
          \<and> errors (trace (snd (run_stage env s st))) = errors (trace st)
          \<and> (\<forall>p. post s = Check_file p \<longrightarrow>
               last (trace (snd (run_stage env s st))) =
                 (if has_content (files (snd (run_stage env s st))) p
                  then Log INFO (lit (p @ '' created successfully''))
                  else Log WARNING (lit (''[!] '' @ p @ '' is empty or not created''))))
          \<and> (\<forall>m. post s = Log_info m \<longrightarrow>
               last (trace (snd (run_stage env s st))) = Log INFO (lit m)
               \<and> warnings (trace (snd (run_stage env s st))) = warnings (trace st))"
    if ps: "passes env s"
  proof -
    obtain r st1 where x: "run_stage env s st = (r, st1)" by (cases "run_stage env s st")
    have r: "r = Inr True" using run_stage_continue [of env s st] ps by (simp add: x)
    have t: "trace st1 =
           trace st @ [Log_step (Suc (current_step st)) total_steps (step_name s)]
             @ (case redirect_of (output_file s) of Some f \<Rightarrow> [OpenW f] | None \<Rightarrow> [])
             @ [Spawn (argv_of s), report (post s) (files st1)]"
      using run_stage_zero_trace [OF ps, of st] by (simp add: x)
    have e: "errors (trace st1) = errors (trace st)"
      by (simp add: t errors_append report_def split: option.splits post.splits)
    have l: "\<forall>p. post s = Check_file p \<longrightarrow>
          last (trace st1) =
            (if has_content (files st1) p
             then Log INFO (lit (p @ '' created successfully''))
             else Log WARNING (lit (''[!] '' @ p @ '' is empty or not created'')))"
      by (simp add: t report_def)
    have g: "\<forall>m. post s = Log_info m \<longrightarrow>
          last (trace st1) = Log INFO (lit m) \<and> warnings (trace st1) = warnings (trace st)"
      by (simp add: t report_def warnings_append split: option.splits)
    show ?thesis
      using r e l g by (simp add: x)
  qed
  have c3: "opens env s \<and> exits_zero env s \<and> \<not> decodes env s \<longrightarrow>
          fst (run_stage env s st) = Inl UnicodeDecodeError"
    by (simp add: run_stage_result exits_zero_def split: outcome.splits)
  have "s \<in> set (filter (\<lambda>s. artifact s = None) (stages target)) \<longleftrightarrow> s = stages target ! 11"
    unfolding stages_without_check by simp
  then have c4: "(\<exists>p. post s = Check_file p) \<longleftrightarrow> s \<noteq> stages target ! 11"
    using assms(1) by (auto simp add: artifact_def split: post.splits)
  show ?thesis
    using c1 c2 c3 c4 stage12_post [of target] by blast
qed

theorem file_check_is_advisory_witness:
  "stages ''example.com'' ! 0 \<in> set (stages ''example.com'')
   \<and> passes env_quiet (stages ''example.com'' ! 0)
   \<and> post (stages ''example.com'' ! 0) = Check_file ''output/01_subfinder.txt''
   \<and> fst (run_stage env_quiet (stages ''example.com'' ! 0) st0) = Inr True
   \<and> errors (trace (snd (run_stage env_quiet (stages ''example.com'' ! 0) st0))) = []
   \<and> last (trace (snd (run_stage env_quiet (stages ''example.com'' ! 0) st0))) =
       Log WARNING (lit ''[!] output/01_subfinder.txt is empty or not created'')
   \<and> opens env_garbled (stages ''example.com'' ! 0)
   \<and> exits_zero env_garbled (stages ''example.com'' ! 0)
   \<and> \<not> decodes env_garbled (stages ''example.com'' ! 0)
   \<and> fst (run_stage env_garbled (stages ''example.com'' ! 0) st0) = Inl UnicodeDecodeError"
proof -
  have h1: "stages ''example.com'' ! 0 \<in> set (stages ''example.com'')"
    by (simp add: length_stages)
  have h2: "passes env_quiet (stages ''example.com'' ! 0)"
    by (rule env_quiet_zero)
  have h3: "post (stages ''example.com'' ! 0) = Check_file ''output/01_subfinder.txt''"
    by (simp add: stages_def mk_stage_def out_def output_dir_def)
  have h4: "\<not> has_content (files (snd (run_stage env_quiet (stages ''example.com'' ! 0) st0)))
              ''output/01_subfinder.txt''"
    by (simp add: run_stage_files invoke_files log_step_simps has_content_def stages_def mk_stage_def
        argv_of_def env_quiet_def ok_quiet_def out_def output_dir_def st0_def redirect_of_def)
  have g: "opens env_garbled (stages ''example.com'' ! 0)"
    "exits_zero env_garbled (stages ''example.com'' ! 0)"
    "\<not> decodes env_garbled (stages ''example.com'' ! 0)"
    by (simp_all add: opens_def exits_zero_def decodes_def env_garbled_def ok_garbled_def
        ascii_codec_garbled split: option.splits)
  show ?thesis
    using file_check_is_advisory [OF h1, of env_quiet st0 "[]"]
      file_check_is_advisory [OF h1, of env_garbled st0 "[]"] h1 h2 h3 h4 g
    by (simp add: st0_def)
qed

text \<open>
  The claim as stated asks for the report after each of the 21 stages. Stage 12 succeeds
  here without a manifest on disk, and the runner logs no warning and no report about any
  file: it logs that the screenshots were captured.
\<close>

theorem stage12_no_file_report:
  "passes env_quiet (stages ''example.com'' ! 11)
   \<and> exits_zero env_quiet (stages ''example.com'' ! 11)
   \<and> files (snd (run_stage env_quiet (stages ''example.com'' ! 11) st11)) ''screenshots/gowitness.json'' = None
   \<and> warnings (trace (snd (run_stage env_quiet (stages ''example.com'' ! 11) st11))) = []
   \<and> trace (snd (run_stage env_quiet (stages ''example.com'' ! 11) st11)) =
       [Log_step 12 21 ''gowitness screenshots'',
        Spawn [''gowitness'', ''file'', ''-f'', ''output/11_live_urls.txt'', ''-t'', ''5'',
               ''--timeout'', ''10'', ''--log-level'', ''warn'', ''--destination'', ''screenshots'',
               ''--json'', ''screenshots/gowitness.json''],
        Log INFO (lit ''Screenshots captured'')]"
proof -
  have p: "passes env_quiet (stages ''example.com'' ! 11)"
    by (rule env_quiet_zero)
  then have z: "exits_zero env_quiet (stages ''example.com'' ! 11)"
    by (simp add: passes_def)
  have s12: "stages ''example.com'' ! 11 =
      mk_stage ''gowitness screenshots''
       (Argv [''gowitness'', ''file'', ''-f'', out ''11_live_urls.txt'', ''-t'', ''5'', ''--timeout'', ''10'',
              ''--log-level'', ''warn'', ''--destination'', ''screenshots'',
              ''--json'', ''screenshots/gowitness.json''])
       None ''Gowitness failed''
       (Log_info ''Screenshots captured'')"
    by (simp add: stages_def)
  have a: "argv_of (stages ''example.com'' ! 11) =
      [''gowitness'', ''file'', ''-f'', ''output/11_live_urls.txt'', ''-t'', ''5'',
               ''--timeout'', ''10'', ''--log-level'', ''warn'', ''--destination'', ''screenshots'',
               ''--json'', ''screenshots/gowitness.json'']"
    by (simp add: s12 mk_stage_def argv_of_def out_def output_dir_def)
  have m: "output_file (stages ''example.com'' ! 11) = None"
    "post (stages ''example.com'' ! 11) = Log_info ''Screenshots captured''"
    "step_name (stages ''example.com'' ! 11) = ''gowitness screenshots''"
    by (simp_all add: s12 mk_stage_def)
  have f: "files (snd (run_stage env_quiet (stages ''example.com'' ! 11) st11)) ''screenshots/gowitness.json'' = None"
    by (simp add: run_stage_files invoke_files m redirect_of_def log_step_simps env_quiet_def
        ok_quiet_def st11_def)
  have t: "trace (snd (run_stage env_quiet (stages ''example.com'' ! 11) st11)) =
       [Log_step 12 21 ''gowitness screenshots'',
        Spawn [''gowitness'', ''file'', ''-f'', ''output/11_live_urls.txt'', ''-t'', ''5'',
               ''--timeout'', ''10'', ''--log-level'', ''warn'', ''--destination'', ''screenshots'',
               ''--json'', ''screenshots/gowitness.json''],
        Log INFO (lit ''Screenshots captured'')]"
    by (simp add: run_stage_zero_trace [OF p] m a redirect_of_def report_def st11_def total_steps_def)
  show ?thesis
    using p z f by (simp add: t)
qed

text \<open>
  Claim C7. A target without a \<open>'.'\<close> is rejected: exit status 1, and the run has spawned
  no process, made no directory, opened no file and left the disk as it was. The test for
  \<open>'.'\<close> is the only validation: every target that has one is accepted, so that with the
  tools present, the directories creatable and every stage passing (exit status 0, nothing
  raised) the run ends with exit status 0 for any such target.
\<close>

theorem target_without_dot_rejected:
  "(CHR ''.'' \<notin> set target \<longrightarrow>
      fst (main env target st) = 1
      \<and> spawned (trace (snd (main env target st))) = spawned (trace st)
      \<and> made_dirs (trace (snd (main env target st))) = made_dirs (trace st)
      \<and> opened (trace (snd (main env target st))) = opened (trace st)
      \<and> files (snd (main env target st)) = files st)
   \<and> (CHR ''.'' \<in> set target \<and> tools_present env \<and> dirs_creatable env
        \<and> list_all (passes env) (stages target) \<longrightarrow>
      fst (main env target st) = 0)"
proof (intro conjI impI)
  assume "CHR ''.'' \<in> set target \<and> tools_present env \<and> dirs_creatable env
        \<and> list_all (passes env) (stages target)"
  then show "fst (main env target st) = 0"
    using main_exit_zero_iff [of env target st] by simp
qed (simp_all add: main_def logger_simps trace_append)

theorem target_without_dot_rejected_witness:
  "CHR ''.'' \<notin> set ''localhost''
   \<and> main env_mock ''localhost'' st0 =
       (1, \<lparr>files = Map.empty,
            trace = [Log ERROR (lit ''Invalid target format. Please provide a valid domain (e.g., example.com)'')],
            current_step = 0\<rparr>)
   \<and> CHR ''.'' \<in> set ''example.com'' \<and> tools_present env_mock \<and> dirs_creatable env_mock
   \<and> list_all (passes env_mock) (stages ''example.com'')
   \<and> fst (main env_mock ''example.com'' st0) = 0"
proof -
  have z: "list_all (passes env_mock) (stages ''example.com'')"
    by (simp add: list_all_iff env_mock_zero)
  have m: "main env_mock ''localhost'' st0 =
       (1, \<lparr>files = Map.empty,
            trace = [Log ERROR (lit ''Invalid target format. Please provide a valid domain (e.g., example.com)'')],
            current_step = 0\<rparr>)"
    by (simp add: main_def logger_def logger_text_def st0_def)
  show ?thesis
    using target_without_dot_rejected [of "''localhost''" env_mock st0]
      target_without_dot_rejected [of "''example.com''" env_mock st0]
      z m env_mock_pre
    by simp
qed




text \<open>
  Claim C10. A stage opens for writing at most one file, the output path it declares. For
  stages \<open>M < N\<close>, the artifact of stage \<open>M\<close> is not the file stage \<open>N\<close> opens, so the
  runner neither opens nor truncates it during stage \<open>N\<close> (the runner has no operation that
  deletes a file). Hence the artifact keeps its content through stage \<open>N\<close>, and through all
  stages after \<open>M\<close>, as long as the tools themselves only read it.
\<close>

theorem later_stages_keep_artifacts:
  assumes "1 \<le> M" and "M < N" and "N \<le> 21"
    and "artifact (stages target ! (M - 1)) = Some p"
  shows "(output_file (stages target ! (N - 1)) = None
          \<or> output_file (stages target ! (N - 1)) = artifact (stages target ! (N - 1)))
     \<and> output_file (stages target ! (N - 1)) \<noteq> Some p
     \<and> opened (trace (snd (run_stage env (stages target ! (N - 1)) st))) =
         opened (trace st) @ (case output_file (stages target ! (N - 1)) of Some f \<Rightarrow> [f] | None \<Rightarrow> [])
     \<and> (tool_leaves_alone env (stages target ! (N - 1)) p \<longrightarrow>
          files (snd (run_stage env (stages target ! (N - 1)) st)) p = files st p)
     \<and> ((\<forall>s\<in>set (drop M (stages target)). tool_leaves_alone env s p) \<longrightarrow>
          files (snd (run_stages env (drop M (stages target)) st)) p = files st p)"
proof -
  define s where "s = stages target ! (N - 1)"
  have mem: "s \<in> set (stages target)" using assms by (simp add: s_def length_stages)
  have own: "output_file s = None \<or> output_file s = artifact s"
    using output_file_artifact [OF mem] .
  have "M - 1 < 21" "N - 1 < 21" "M - 1 \<noteq> N - 1" using assms by auto
  then have ne: "output_file s \<noteq> Some p"
    unfolding s_def using assms(4) by (rule other_stage_output)
  have op: "opened (trace (snd (run_stage env s st))) =
         opened (trace st) @ (case output_file s of Some f \<Rightarrow> [f] | None \<Rightarrow> [])"
    by (simp add: run_stage_trace_proj(2) redirect_of_stages [OF mem])
  have one: "tool_leaves_alone env s p \<longrightarrow> files (snd (run_stage env s st)) p = files st p"
    using ne
    by (auto simp add: run_stage_files invoke_files log_step_simps tool_leaves_alone_def leaves_alone_def
        dest: redirect_of_cases split: option.splits outcome.splits)
  have later: "\<forall>s'\<in>set (drop M (stages target)). output_file s' \<noteq> Some p"
  proof
    fix s'
    assume "s' \<in> set (drop M (stages target))"
    then obtain i where i: "i < length (drop M (stages target))" "s' = drop M (stages target) ! i"
      by (auto simp add: in_set_conv_nth)
    then have s': "s' = stages target ! (M + i)" and b: "M + i < 21"
      by (simp_all add: length_stages)
    have "M - 1 < 21" "M + i < 21" "M - 1 \<noteq> M + i" using assms b by auto
    then show "output_file s' \<noteq> Some p"
      unfolding s' using assms(4) by (rule other_stage_output)
  qed
  have all: "(\<forall>s\<in>set (drop M (stages target)). tool_leaves_alone env s p) \<longrightarrow>
          files (snd (run_stages env (drop M (stages target)) st)) p = files st p"
    using later run_stages_frame [of "drop M (stages target)" p env st] by blast
  show ?thesis
    using own ne op one all unfolding s_def by blast
qed

theorem later_stages_keep_artifacts_witness:
  "artifact (stages ''example.com'' ! (1 - 1)) = Some ''output/01_subfinder.txt''
   \<and> tool_leaves_alone env_mock (stages ''example.com'' ! (2 - 1)) ''output/01_subfinder.txt''
   \<and> list_all (\<lambda>s. tool_leaves_alone env_mock s ''output/01_subfinder.txt'')
         (drop 1 (stages ''example.com''))
   \<and> output_file (stages ''example.com'' ! (2 - 1)) = Some ''output/02_amass_passive.txt''
   \<and> opened (trace (snd (run_stage env_mock (stages ''example.com'' ! (2 - 1)) st0))) =
       [''output/02_amass_passive.txt'']
   \<and> files (snd (run_stage env_mock (stages ''example.com'' ! (2 - 1)) st0)) ''output/01_subfinder.txt'' =
       files st0 ''output/01_subfinder.txt''
   \<and> files (snd (run_stages env_mock (drop 1 (stages ''example.com'')) st0)) ''output/01_subfinder.txt'' =
       files st0 ''output/01_subfinder.txt''"
proof -
  have h: "artifact (stages ''example.com'' ! (1 - 1)) = Some ''output/01_subfinder.txt''"
    by (simp add: stages_def mk_stage_def artifact_def out_def output_dir_def)
  have o: "output_file (stages ''example.com'' ! (2 - 1)) = Some ''output/02_amass_passive.txt''"
    by (simp add: stages_def mk_stage_def out_def output_dir_def)
  have a: "\<forall>s\<in>set (drop 1 (stages ''example.com'')). tool_leaves_alone env_mock s ''output/01_subfinder.txt''"
    by (simp add: env_mock_alone)
  show ?thesis
    using later_stages_keep_artifacts [of 1 2 "''example.com''" "''output/01_subfinder.txt''" env_mock st0]
      h o a env_mock_alone
    by (simp add: st0_def list_all_iff redirect_of_def)
qed

section \<open>Properties of the installer\<close>

lemma say_simps:
  "world (say l m st) = world st"
  "events (say l m st) = events st @ [Log l (lit m)]"
  "world (say_text l t st) = world st"
  "events (say_text l t st) = events st @ [Log l t]"
  by (simp_all add: say_def say_text_def)

lemma run_command_inst_done:
  "exec h c (world st) = (Done rc sout serr, w) \<Longrightarrow>
   codec h sout = Some out_text \<Longrightarrow> codec h serr = Some err_text \<Longrightarrow>
   run_command_inst h c check st =
     (if check \<and> rc \<noteq> 0 then Inr (False, translate_newlines err_text)
      else Inr (True, translate_newlines out_text), after_run st c w)"
  by (simp add: run_command_inst_def after_run_def)

lemma run_command_inst_undecodable:
  "exec h c (world st) = (Done rc sout serr, w) \<Longrightarrow>
   codec h sout = None \<or> codec h serr = None \<Longrightarrow>
   run_command_inst h c check st = (Inl UnicodeDecodeError, after_run st c w)"
  by (auto simp add: run_command_inst_def after_run_def split: option.splits)


lemma run_command_inst_after:
  "snd (run_command_inst h c check st) = after_run st c (snd (exec h c (world st)))"
  by (cases "exec h c (world st)")
     (simp add: run_command_inst_def after_run_def split: ran.splits)

lemma run_command_inst_false:
  "(\<exists>x. fst (run_command_inst h c check st) = Inr (False, x)) \<longleftrightarrow>
   check \<and> (\<exists>rc sout serr w. exec h c (world st) = (Done rc sout serr, w) \<and> rc \<noteq> 0
              \<and> codec h sout \<noteq> None \<and> codec h serr \<noteq> None)"
proof (cases "exec h c (world st)")
  case (Pair r w)
  then show ?thesis
    by (cases r) (auto simp add: run_command_inst_def split: option.splits)
qed

lemma try_version_flags_accept:
  assumes "exec h [t, flag] (world st) = (Done rc sout serr, w)"
    and "codec h sout = Some out_text" and "codec h serr = Some err_text"
    and "strip (tables h) (translate_newlines out_text) \<noteq> []"
  shows "try_version_flags h t (flag # flags) st =
           (Inr (Some (version_of (tables h) (translate_newlines out_text))), after_run st [t, flag] w)"
  using assms by (simp add: run_command_inst_done)

lemma try_version_flags_skip:
  assumes "exec h [t, flag] (world st) = (Done rc sout serr, w)"
    and "codec h sout = Some out_text" and "codec h serr = Some err_text"
    and "strip (tables h) (translate_newlines out_text) = []"
  shows "try_version_flags h t (flag # flags) st = try_version_flags h t flags (after_run st [t, flag] w)"
  using assms by (simp add: run_command_inst_done)



lemma check_apt_package_installed_done:
  assumes "exec h [''dpkg'', ''-l'', p] (world st) = (Done rc sout serr, w)"
    and "codec h sout = Some out_text" and "codec h serr = Some err_text"
  shows "check_apt_package_installed h p st =
           (Inr (contains (lit p) (translate_newlines out_text)), after_run st [''dpkg'', ''-l'', p] w)"
  using assms by (simp add: check_apt_package_installed_def run_command_inst_done)

subsection \<open>The version pattern\<close>









subsection \<open>Version probes\<close>




lemma simple_host_exec: "exec (simple_host table identity euid) c w = (table c, w)"
  by (simp add: simple_host_def)

lemma simple_host_codec:
  "codec (simple_host table identity euid) = ascii_codec"
  "tables (simple_host table identity euid) = sample_unicode"
  by (simp_all add: simple_host_def)

lemma strip_newline: "strip u (translate_newlines (lit newline)) = []"
  by (simp add: strip_def is_space_def newline_def lit_def)

lemma ascii_newline: "ascii_codec newline = Some (lit newline)" "ascii_codec [] = Some []"
  by (simp_all add: ascii_codec_def newline_def lit_def)

lemma blank_exec: "exec blank_host c w = (Done 1 newline [], w)"
  by (simp add: blank_host_def simple_host_exec)

lemma blank_codec: "codec blank_host = ascii_codec"
  by (simp add: blank_host_def simple_host_codec)

lemma try_version_flags_blank:
  "try_version_flags blank_host t (flag # flags) st =
     try_version_flags blank_host t flags (after_run st [t, flag] ())"
proof (rule try_version_flags_skip)
  show "exec blank_host [t, flag] (world st) = (Done 1 newline [], ())" by (simp add: blank_exec)
  show "codec blank_host newline = Some (lit newline)" by (simp add: blank_codec ascii_newline)
  show "codec blank_host [] = Some []" by (simp add: blank_codec ascii_newline)
  show "strip (tables blank_host) (translate_newlines (lit newline)) = []" by (rule strip_newline)
qed

lemma get_tool_version_blank:
  "get_tool_version blank_host t init =
     (Inr None, \<lparr>world = (), events = [Spawn [t, ''--version''], Spawn [t, ''-version''], Spawn [t, ''-v''], Spawn [t, ''version'']]\<rparr>)"
  by (simp add: get_tool_version_def version_flags_def try_version_flags_blank after_run_def init_def
      del: try_version_flags.simps(2))



text \<open>The Kelvin sign followed by \<open>ali\<close> is Kali for the installer.\<close>

lemma kelvin_example: "says_kali sample_unicode (Content [8490, 97, 108, 105])"
  by (simp add: says_kali_def lit_def lower_def sample_unicode_def lower_point_def lower_ascii_def)


lemma ascii_version_line: "ascii_codec version_line = Some (lit version_line)"
  by (simp add: ascii_codec_def version_line_def newline_def)

lemma version_line_text:
  "translate_newlines (lit version_line) = lit ''subfinder version v2.6.3'' @ [10]"
  by (simp add: version_line_def newline_def lit_def)

lemma version_of_example:
  "version_of sample_unicode (translate_newlines (lit version_line)) = lit ''v2.6.3''"
  unfolding version_line_text
  by (simp add: version_of_def strip_def is_space_def mentions_def lower_def lower_ascii_def match_here_def
      match_tail_def is_digit_def Let_def lit_def)

lemma strip_example: "strip sample_unicode (translate_newlines (lit version_line)) \<noteq> []"
  unfolding version_line_text
  by (simp add: strip_def is_space_def lit_def)

lemma versioned_exec:
  "exec versioned_host c w = (Done 2 version_line [], w)"
  by (simp add: versioned_host_def simple_host_exec)

lemma versioned_codec:
  "codec versioned_host = ascii_codec" "tables versioned_host = sample_unicode"
  by (simp_all add: versioned_host_def simple_host_codec)

lemma steps_selection:
  "map snd (steps False) =
     [Update_system_packages, Install_apt_packages, Setup_go_environment, Install_go_tools,
      Update_nuclei_templates, Create_directories, Verify_installations]"
  "map snd (steps True) =
     [Update_system_packages, Force_install_apt_packages, Setup_go_environment, Force_install_go_tools,
      Update_nuclei_templates, Create_directories, Verify_installations]"
  by (simp_all add: steps_def)

lemma force_install_apt_packages_spawned:
  "spawned (events (snd (force_install_apt_packages h st))) =
     spawned (events st) @
     [[''apt'', ''install'', ''-y'', ''--reinstall'', ''golang-go'', ''git'', ''curl'', ''jq'',
       ''python3-pip'', ''chromium'', ''build-essential'', ''pkg-config'']]"
proof -
  define s1 where "s1 = say INFO (''[+] Force installing packages: '' @ join '', '' apt_packages)
                (say INFO ''[+] Force installing APT packages...'' st)"
  define c where "c = [''apt'', ''install'', ''-y'', ''--reinstall''] @ apt_packages"
  have s1: "spawned (events s1) = spawned (events st)"
    by (simp add: s1_def say_simps trace_append)
  obtain r st2 where e: "run_command_inst h c True s1 = (r, st2)"
    by (cases "run_command_inst h c True s1")
  have ev: "events st2 = events s1 @ [Spawn c]"
    using run_command_inst_after [of h c True s1] by (simp add: e after_run_def)
  have "spawned (events (snd (force_install_apt_packages h st))) = spawned (events st) @ [c]"
    unfolding force_install_apt_packages_def s1_def [symmetric] c_def [symmetric]
    by (cases r) (auto simp add: e ev s1 say_simps trace_append)
  then show ?thesis by (simp add: c_def apt_packages_def)
qed

subsection \<open>The pattern as a specification\<close>
















text \<open>
  Claim C6, at a host the code does not handle. On a Kali host, run as root without the
  force flag, where \<open>subfinder\<close> is not installed, the presence probe of \<open>subfinder\<close> cannot
  be started: \<open>subprocess.run\<close> raises \<open>FileNotFoundError\<close>, which nothing below \<open>main\<close>
  catches. The installer exits with status 1 right after that probe, and no
  \<open>go install\<close> command has been run for the missing tool.
\<close>

theorem fresh_host_install_aborts:
  "exec fresh_host [''subfinder'', ''--version''] () = (Raised, ())
   \<and> fst (main_inst fresh_host False init) = 1
   \<and> spawned (events (snd (main_inst fresh_host False init))) =
       [[''apt'', ''update''], [''apt'', ''upgrade'', ''-y''],
        [''dpkg'', ''-l'', ''golang-go''], [''dpkg'', ''-l'', ''git''], [''dpkg'', ''-l'', ''curl''],
        [''dpkg'', ''-l'', ''jq''], [''dpkg'', ''-l'', ''python3-pip''], [''dpkg'', ''-l'', ''chromium''],
        [''dpkg'', ''-l'', ''build-essential''], [''dpkg'', ''-l'', ''pkg-config''],
        [''apt'', ''install'', ''-y'', ''golang-go'', ''git'', ''curl'', ''jq'', ''python3-pip'',
         ''chromium'', ''build-essential'', ''pkg-config''],
        [''go'', ''version''],
        [''subfinder'', ''--version'']]"
  by (simp add: main_inst_def install_def Let_def check_kali_linux_def says_kali_def kali_def lower_def
     lower_ascii_def steps_def step_func_def update_system_packages_def
     install_apt_packages_def apt_packages_def check_apt_package_installed_def
     run_command_inst_def setup_go_environment_def check_command_exists_def mkdir_or_raise_def
     warn_go_bin_def os_path_join_def install_go_tools_def go_tools_def get_tool_version_def
     version_flags_def say_def say_text_def init_def fresh_host_def simple_host_def newline_def
     strip_def is_space_def ascii_codec_def lit_def)

text \<open>
  Claim C9, amended. For every command whose process runs to an exit status and whose two
  captured streams decode, \<open>run_command\<close> with \<open>check=False\<close> returns success and the
  decoded standard output, whatever the exit status; \<open>run_command\<close> returns failure only
  under \<open>check=True\<close> with a non-zero exit status. A stream that does not decode raises
  \<open>UnicodeDecodeError\<close>, with or without \<open>check\<close> and whatever the exit status.
  Consequently \<open>get_tool_version\<close> accepts the first version flag whose standard output is
  not empty after stripping white space, also when the tool exited non-zero, and
  \<open>check_apt_package_installed\<close> is the substring test of the package name on the standard
  output of the probe.
\<close>

theorem check_false_ignores_exit_status:
  "(\<forall>rc sout serr w out_text err_text.
      exec h c (world st) = (Done rc sout serr, w)
      \<and> codec h sout = Some out_text \<and> codec h serr = Some err_text \<longrightarrow>
      run_command_inst h c False st = (Inr (True, translate_newlines out_text), after_run st c w))
   \<and> (\<forall>rc sout serr w.
        exec h c (world st) = (Done rc sout serr, w)
        \<and> (codec h sout = None \<or> codec h serr = None) \<longrightarrow>
        run_command_inst h c check st = (Inl UnicodeDecodeError, after_run st c w))
   \<and> ((\<exists>x. fst (run_command_inst h c check st) = Inr (False, x)) \<longleftrightarrow>
        check \<and> (\<exists>rc sout serr w. exec h c (world st) = (Done rc sout serr, w) \<and> rc \<noteq> 0
                   \<and> codec h sout \<noteq> None \<and> codec h serr \<noteq> None))
   \<and> (\<forall>t flag flags rc sout serr w out_text err_text.
        exec h [t, flag] (world st) = (Done rc sout serr, w)
        \<and> codec h sout = Some out_text \<and> codec h serr = Some err_text \<longrightarrow>
        try_version_flags h t (flag # flags) st =
          (if strip (tables h) (translate_newlines out_text) \<noteq> []
           then (Inr (Some (version_of (tables h) (translate_newlines out_text))), after_run st [t, flag] w)
           else try_version_flags h t flags (after_run st [t, flag] w)))
   \<and> (\<forall>p rc sout serr w out_text err_text.
        exec h [''dpkg'', ''-l'', p] (world st) = (Done rc sout serr, w)
        \<and> codec h sout = Some out_text \<and> codec h serr = Some err_text \<longrightarrow>
        fst (check_apt_package_installed h p st) = Inr (contains (lit p) (translate_newlines out_text)))"
proof -
  have a: "\<forall>rc sout serr w out_text err_text.
      exec h c (world st) = (Done rc sout serr, w)
      \<and> codec h sout = Some out_text \<and> codec h serr = Some err_text \<longrightarrow>
      run_command_inst h c False st = (Inr (True, translate_newlines out_text), after_run st c w)"
    by (simp add: run_command_inst_done)
  have a2: "\<forall>rc sout serr w.
        exec h c (world st) = (Done rc sout serr, w)
        \<and> (codec h sout = None \<or> codec h serr = None) \<longrightarrow>
        run_command_inst h c check st = (Inl UnicodeDecodeError, after_run st c w)"
    using run_command_inst_undecodable [of h c st] by blast
  have b: "(\<exists>x. fst (run_command_inst h c check st) = Inr (False, x)) \<longleftrightarrow>
        check \<and> (\<exists>rc sout serr w. exec h c (world st) = (Done rc sout serr, w) \<and> rc \<noteq> 0
                   \<and> codec h sout \<noteq> None \<and> codec h serr \<noteq> None)"
    by (rule run_command_inst_false)
  have c: "\<forall>t flag flags rc sout serr w out_text err_text.
        exec h [t, flag] (world st) = (Done rc sout serr, w)
        \<and> codec h sout = Some out_text \<and> codec h serr = Some err_text \<longrightarrow>
        try_version_flags h t (flag # flags) st =
          (if strip (tables h) (translate_newlines out_text) \<noteq> []
           then (Inr (Some (version_of (tables h) (translate_newlines out_text))), after_run st [t, flag] w)
           else try_version_flags h t flags (after_run st [t, flag] w))"
    using try_version_flags_accept [of h _ _ st] try_version_flags_skip [of h _ _ st] by auto
  have d: "\<forall>p rc sout serr w out_text err_text.
        exec h [''dpkg'', ''-l'', p] (world st) = (Done rc sout serr, w)
        \<and> codec h sout = Some out_text \<and> codec h serr = Some err_text \<longrightarrow>
        fst (check_apt_package_installed h p st) = Inr (contains (lit p) (translate_newlines out_text))"
    by (simp add: check_apt_package_installed_done)
  show ?thesis
    by (intro conjI) (rule a a2 b c d)+
qed

theorem check_false_ignores_exit_status_witness:
  "exec versioned_host [''dpkg'', ''-l'', ''subfinder''] (world init) =
     (Done 2 version_line [], ())
   \<and> codec versioned_host version_line = Some (lit version_line)
   \<and> codec versioned_host [] = Some []
   \<and> run_command_inst versioned_host [''dpkg'', ''-l'', ''subfinder''] False init =
       (Inr (True, translate_newlines (lit version_line)),
        after_run init [''dpkg'', ''-l'', ''subfinder''] ())
   \<and> (\<exists>x. fst (run_command_inst versioned_host [''dpkg'', ''-l'', ''subfinder''] True init) = Inr (False, x))
   \<and> try_version_flags versioned_host ''subfinder'' [''--version'', ''-version''] init =
       (Inr (Some (lit ''v2.6.3'')), after_run init [''subfinder'', ''--version''] ())
   \<and> fst (check_apt_package_installed versioned_host ''subfinder'' init) = Inr True
   \<and> exec garbled_host [''dpkg'', ''-l'', ''git''] (world init) = (Done 0 [CHR 0xFF] [], ())
   \<and> codec garbled_host [CHR 0xFF] = None
   \<and> run_command_inst garbled_host [''dpkg'', ''-l'', ''git''] False init =
       (Inl UnicodeDecodeError, after_run init [''dpkg'', ''-l'', ''git''] ())"
proof -
  note t = check_false_ignores_exit_status [of versioned_host "[''dpkg'', ''-l'', ''subfinder'']" init True]
  note g = check_false_ignores_exit_status [of garbled_host "[''dpkg'', ''-l'', ''git'']" init False]
  have e: "exec versioned_host [''dpkg'', ''-l'', ''subfinder''] (world init) =
     (Done 2 version_line [], ())"
    by (simp add: versioned_exec)
  have e2: "exec versioned_host [''subfinder'', ''--version''] (world init) =
     (Done 2 version_line [], ())"
    by (simp add: versioned_exec)
  have k: "codec versioned_host version_line = Some (lit version_line)"
    "codec versioned_host [] = Some []"
    by (simp_all add: versioned_codec ascii_version_line ascii_newline)
  have c: "contains (lit ''subfinder'') (translate_newlines (lit version_line))"
    unfolding version_line_text by (simp add: lit_def)
  have a: "run_command_inst versioned_host [''dpkg'', ''-l'', ''subfinder''] False init =
       (Inr (True, translate_newlines (lit version_line)),
        after_run init [''dpkg'', ''-l'', ''subfinder''] ())"
    using e k by (rule t [THEN conjunct1, rule_format, OF conjI, OF _ conjI])
  have b: "\<exists>x. fst (run_command_inst versioned_host [''dpkg'', ''-l'', ''subfinder''] True init) = Inr (False, x)"
    using t [THEN conjunct2, THEN conjunct2, THEN conjunct1] e k by auto
  have f: "try_version_flags versioned_host ''subfinder'' [''--version'', ''-version''] init =
       (Inr (Some (lit ''v2.6.3'')), after_run init [''subfinder'', ''--version''] ())"
  proof -
    have "try_version_flags versioned_host ''subfinder'' [''--version'', ''-version''] init =
        (if strip (tables versioned_host) (translate_newlines (lit version_line)) \<noteq> []
         then (Inr (Some (version_of (tables versioned_host) (translate_newlines (lit version_line)))),
               after_run init [''subfinder'', ''--version''] ())
         else try_version_flags versioned_host ''subfinder'' [''-version'']
                (after_run init [''subfinder'', ''--version''] ()))"
      using e2 k
      by (rule t [THEN conjunct2, THEN conjunct2, THEN conjunct2, THEN conjunct1, rule_format,
            OF conjI, OF _ conjI])
    also have "\<dots> = (Inr (Some (lit ''v2.6.3'')), after_run init [''subfinder'', ''--version''] ())"
      using strip_example by (simp add: versioned_codec version_of_example del: try_version_flags.simps)
    finally show ?thesis .
  qed
  have "fst (check_apt_package_installed versioned_host ''subfinder'' init) =
      Inr (contains (lit ''subfinder'') (translate_newlines (lit version_line)))"
    using e k
    by (rule t [THEN conjunct2, THEN conjunct2, THEN conjunct2, THEN conjunct2, rule_format,
          OF conjI, OF _ conjI])
  then have d: "fst (check_apt_package_installed versioned_host ''subfinder'' init) = Inr True"
    using c by simp
  have ge: "exec garbled_host [''dpkg'', ''-l'', ''git''] (world init) = (Done 0 [CHR 0xFF] [], ())"
    by (simp add: garbled_host_def simple_host_exec)
  have gk: "codec garbled_host [CHR 0xFF] = None"
    by (simp add: garbled_host_def simple_host_codec ascii_codec_garbled)
  have gr: "run_command_inst garbled_host [''dpkg'', ''-l'', ''git''] False init =
       (Inl UnicodeDecodeError, after_run init [''dpkg'', ''-l'', ''git''] ())"
    using ge gk by (intro g [THEN conjunct2, THEN conjunct1, rule_format]) blast
  show ?thesis
    by (intro conjI) (rule e k a b f d ge gk gr)+
qed

text \<open>
  The claim as stated gives success for every command under \<open>check=False\<close>, and accepts a
  flag as soon as its standard output is non-empty. A tool that prints a single newline
  (and exits with status 1) has non-empty output on the first flag, and no flag is
  accepted. A tool that exits with status 0 after printing a byte that the codec of the
  locale does not decode gets no result from \<open>run_command\<close> at all: the call raises.
\<close>

theorem blank_output_not_accepted:
  "exec blank_host [''subfinder'', ''--version''] () = (Done 1 newline [], ())
   \<and> newline \<noteq> []
   \<and> fst (get_tool_version blank_host ''subfinder'' init) = Inr None
   \<and> exec garbled_host [''subfinder'', ''--version''] () = (Done 0 [CHR 0xFF] [], ())
   \<and> fst (run_command_inst garbled_host [''subfinder'', ''--version''] False init) = Inl UnicodeDecodeError"
proof -
  have ge: "exec garbled_host [''subfinder'', ''--version''] (world init) = (Done 0 [CHR 0xFF] [], ())"
    by (simp add: garbled_host_def simple_host_exec)
  have gk: "codec garbled_host [CHR 0xFF] = None \<or> codec garbled_host [] = None"
    by (simp add: garbled_host_def simple_host_codec ascii_codec_garbled)
  have "fst (run_command_inst garbled_host [''subfinder'', ''--version''] False init) = Inl UnicodeDecodeError"
    by (simp add: run_command_inst_undecodable [OF ge gk])
  then show ?thesis
    by (simp add: get_tool_version_blank blank_exec garbled_host_def simple_host_exec newline_def)
qed

end
